theory Spec2Isabelle
  imports Main "HOL-Library.Word"
begin

section \<open>The conversation model of siggo (model/model.go)\<close>

text \<open>
  The Go code works on pointers: a conversation holds \<^verbatim>\<open>*Message\<close> values, the
  conversation registry is keyed by \<^verbatim>\<open>*Contact\<close> and holds \<^verbatim>\<open>*Conversation\<close> values,
  and a receipt changes a message through its pointer. The embedding therefore keeps an
  explicit store: one array of objects per struct type, a pointer being \<open>Nil\<close> or the
  index of an object. Dereferencing \<open>Nil\<close> is the panic of the Go runtime and is a
  result of the model (\<open>Inl NilDereference\<close>). An index beyond the array stands for no
  pointer a Go program can hold; dereferencing it is the same panic.

  Go map values are modelled as maps \<open>'k \<rightharpoonup> 'v\<close>. Every map of the source is built by
  \<^verbatim>\<open>make\<close> (in \<^verbatim>\<open>NewConversation\<close>, \<^verbatim>\<open>GetContacts\<close>, \<^verbatim>\<open>GetConversations\<close>), so the nil
  map of a zero-value struct is not part of the model. Output to the log and to standard
  output (\<^verbatim>\<open>log.Printf\<close>, \<^verbatim>\<open>fmt.Printf\<close>) is left out.
\<close>

subsection \<open>Pointers and the store\<close>

datatype ptr = Nil | Ptr nat

datatype panic = NilDereference

definition load :: "'a list \<Rightarrow> ptr \<Rightarrow> 'a option" where
  "load objs p =
     (case p of Nil \<Rightarrow> None
      | Ptr a \<Rightarrow> if a < length objs then Some (objs ! a) else None)"

definition store :: "'a list \<Rightarrow> ptr \<Rightarrow> 'a \<Rightarrow> 'a list" where
  "store objs p v = (case p of Nil \<Rightarrow> objs | Ptr a \<Rightarrow> objs[a := v])"

definition alloc :: "'a list \<Rightarrow> 'a \<Rightarrow> ptr \<times> 'a list" where
  "alloc objs v = (Ptr (length objs), objs @ [v])"

subsection \<open>Data types\<close>

type_synonym int64 = "64 word"

text \<open>A Go \<^verbatim>\<open>error\<close> result: \<open>None\<close> is \<^verbatim>\<open>nil\<close>, \<open>Some e\<close> an error with message \<open>e\<close>.\<close>

type_synonym go_error = "string option"

record Config =
  UserName :: string
  UserNumber :: string

record Contact =
  Number :: string
  Name :: string

record Message =
  Content :: string
  From :: string
  Timestamp :: int64
  IsDelivered :: bool
  IsRead :: bool

record Conversation =
  Contact :: ptr
  Messages :: "int64 \<rightharpoonup> ptr"
  MessageOrder :: "int64 list"
  HasNewMessage :: bool

record heap =
  contact_heap :: "Contact list"
  conv_heap :: "Conversation list"
  msg_heap :: "Message list"

text \<open>
  Modelled from the spec: the package \<^verbatim>\<open>signal\<close> that declares the event type
  \<^verbatim>\<open>signal.Message\<close> is not part of the sources. The spec (sections 4.3 and 4.4) gives the
  fields the model reads: the sender identifier, the text and the sender-assigned
  timestamp of a received message, and the delivery flag, the read flag and the timestamp
  list of a receipt. The records keep the access paths of the code
  (\<^verbatim>\<open>msg.Envelope.Source\<close>, \<^verbatim>\<open>msg.Envelope.DataMessage.Timestamp\<close>, ...); an event is
  well-formed, so none of its parts is nil.
\<close>

record DataMessage =
  dmMessage :: string
  dmTimestamp :: int64

record ReceiptMessage =
  IsDelivery :: bool
  rmIsRead :: bool
  Timestamps :: "int64 list"

record Envelope =
  Source :: string
  DataMessage :: DataMessage
  ReceiptMessage :: ReceiptMessage

record signal_Message =
  Envelope :: Envelope

text \<open>
  The coordinator. \<^verbatim>\<open>config\<close> is a pointer in the code; it is only read, so the model
  holds the value. The transport (\<^verbatim>\<open>signal SignalAPI\<close>) and the observer
  (\<^verbatim>\<open>NewInfo\<close>) are external: a call to either is recorded as an event of the run, and
  the result of the transport's \<^verbatim>\<open>Send\<close> is a parameter of \<open>Send\<close>. What the observer
  or the transport does inside such a call is outside the model, and the hook
  \<^verbatim>\<open>NewInfo\<close> is taken to be set, as \<^verbatim>\<open>NewSiggo\<close> sets it.
\<close>

record Siggo =
  config :: Config
  contacts :: "string \<rightharpoonup> ptr"
  conversations :: "ptr \<rightharpoonup> ptr"

datatype event =
    OnReceivedRegistered
  | OnReceiptRegistered
  | SignalSend string string
  | NewInfo ptr

record world =
  siggo :: Siggo
  mem :: heap
  events :: "event list"

subsection \<open>Message.String and Conversation.String\<close>

definition DeliveryStatus :: "bool \<rightharpoonup> string" where
  "DeliveryStatus = [True \<mapsto> ''<'', False \<mapsto> ''?'']"

definition ReadStatus :: "bool \<rightharpoonup> string" where
  "ReadStatus = [True \<mapsto> ''>'', False \<mapsto> ''?'']"

text \<open>Reading a Go map of strings: a missing key gives the empty string.\<close>

definition index_str :: "('k \<rightharpoonup> string) \<Rightarrow> 'k \<Rightarrow> string" where
  "index_str m k = (case m k of None \<Rightarrow> [] | Some v \<Rightarrow> v)"

text \<open>Reading a Go map of pointers: a missing key gives nil.\<close>

definition index_ptr :: "('k \<rightharpoonup> ptr) \<Rightarrow> 'k \<Rightarrow> ptr" where
  "index_ptr m k = (case m k of None \<Rightarrow> Nil | Some p \<Rightarrow> p)"

text \<open>The verb \<^verbatim>\<open>%d\<close> of \<^verbatim>\<open>fmt.Sprintf\<close> on an \<^verbatim>\<open>int64\<close>: decimal, with a minus sign.\<close>

definition digit_char :: "nat \<Rightarrow> char" where
  "digit_char d = ''0123456789'' ! d"

function show_nat :: "nat \<Rightarrow> string" where
  "show_nat n = (if n < 10 then [digit_char n] else show_nat (n div 10) @ [digit_char (n mod 10)])"
  by pat_completeness auto
termination
  by (relation "measure (\<lambda>n. n)") auto

definition show_int :: "int \<Rightarrow> string" where
  "show_int i = (if i < 0 then CHR ''-'' # show_nat (nat (- i)) else show_nat (nat i))"

definition Sprintf_d :: "int64 \<Rightarrow> string" where
  "Sprintf_d t = show_int (sint t)"

definition Message_String :: "heap \<Rightarrow> ptr \<Rightarrow> panic + string" where
  "Message_String h m =
     (case load (msg_heap h) m of
        None \<Rightarrow> Inl NilDereference
      | Some mv \<Rightarrow>
          Inr (Sprintf_d (Timestamp mv) @ ''|''
               @ index_str DeliveryStatus (IsDelivered mv)
               @ index_str ReadStatus (IsRead mv)
               @ '' '' @ From mv @ '': '' @ Content mv @ [CHR 0x0A]))"

fun String_loop :: "heap \<Rightarrow> Conversation \<Rightarrow> int64 list \<Rightarrow> string \<Rightarrow> panic + string" where
  "String_loop h c [] out = Inr out"
| "String_loop h c (k # ks) out =
     (case Message_String h (index_ptr (Messages c) k) of
        Inl e \<Rightarrow> Inl e
      | Inr line \<Rightarrow> String_loop h c ks (out @ line))"

definition Conversation_String :: "heap \<Rightarrow> ptr \<Rightarrow> panic + string" where
  "Conversation_String h c =
     (case load (conv_heap h) c of
        None \<Rightarrow> Inl NilDereference
      | Some cv \<Rightarrow> String_loop h cv (MessageOrder cv) [])"

subsection \<open>Conversation.AddMessage and NewConversation\<close>

definition AddMessage :: "heap \<Rightarrow> ptr \<Rightarrow> ptr \<Rightarrow> panic + heap" where
  "AddMessage h c message =
     (case load (conv_heap h) c of
        None \<Rightarrow> Inl NilDereference
      | Some cv \<Rightarrow>
         (case load (msg_heap h) message of
            None \<Rightarrow> Inl NilDereference
          | Some mv \<Rightarrow>
              let ok = (Messages cv (Timestamp mv) \<noteq> None);
                  cv1 = cv\<lparr>Messages := (Messages cv)(Timestamp mv \<mapsto> message)\<rparr>;
                  cv2 = (if \<not> ok
                         then cv1\<lparr>MessageOrder := MessageOrder cv1 @ [Timestamp mv],
                                  HasNewMessage := True\<rparr>
                         else cv1)
              in Inr (h\<lparr>conv_heap := store (conv_heap h) c cv2\<rparr>)))"

definition NewConversation :: "heap \<Rightarrow> ptr \<Rightarrow> ptr \<times> heap" where
  "NewConversation h contact =
     (let (conv, ch) = alloc (conv_heap h)
            \<lparr>Contact = contact, Messages = Map.empty, MessageOrder = [],
             HasNewMessage = False\<rparr>
      in (conv, h\<lparr>conv_heap := ch\<rparr>))"

text \<open>A run of \<^verbatim>\<open>AddMessage\<close> calls on one conversation, in the order of the list.\<close>

fun AddMessages :: "heap \<Rightarrow> ptr \<Rightarrow> ptr list \<Rightarrow> panic + heap" where
  "AddMessages h c [] = Inr h"
| "AddMessages h c (m # ms) =
     (case AddMessage h c m of Inl e \<Rightarrow> Inl e | Inr h' \<Rightarrow> AddMessages h' c ms)"

subsection \<open>The coordinator\<close>

definition newConversation :: "world \<Rightarrow> ptr \<Rightarrow> ptr \<times> world" where
  "newConversation w contact =
     (let (conv, h) = NewConversation (mem w) contact
      in (conv, w\<lparr>siggo := (siggo w)\<lparr>conversations := (conversations (siggo w))(contact \<mapsto> conv)\<rparr>,
                  mem := h\<rparr>))"

definition newContact :: "world \<Rightarrow> string \<Rightarrow> ptr \<times> world" where
  "newContact w number =
     (let (contact, ch) = alloc (contact_heap (mem w)) \<lparr>Number = number, Name = []\<rparr>
      in (contact, w\<lparr>siggo := (siggo w)\<lparr>contacts := (contacts (siggo w))(number \<mapsto> contact)\<rparr>,
                     mem := (mem w)\<lparr>contact_heap := ch\<rparr>\<rparr>))"

text \<open>\<^verbatim>\<open>onSend\<close> has an empty body.\<close>

definition onSend :: "world \<Rightarrow> ptr \<Rightarrow> ptr \<Rightarrow> world" where
  "onSend w message conv = w"

text \<open>
  \<open>sig_send\<close> is the transport's \<^verbatim>\<open>Send\<close>: the error it returns for a number and a
  text. The message is allocated before \<^verbatim>\<open>onSend\<close>; \<^verbatim>\<open>contact.Number\<close> is read last,
  where a nil contact panics.
\<close>

definition Send :: "(string \<Rightarrow> string \<Rightarrow> go_error) \<Rightarrow> world \<Rightarrow> string \<Rightarrow> ptr
    \<Rightarrow> panic + (go_error \<times> world)" where
  "Send sig_send w msg contact =
     (let (conv, w1) = (case conversations (siggo w) contact of
                          None \<Rightarrow> newConversation w contact
                        | Some conv \<Rightarrow> (conv, w));
          (message, mh) = alloc (msg_heap (mem w1))
             \<lparr>Content = msg, From = UserName (config (siggo w1)), Timestamp = 0,
              IsDelivered = False, IsRead = False\<rparr>;
          w2 = w1\<lparr>mem := (mem w1)\<lparr>msg_heap := mh\<rparr>\<rparr>;
          w3 = onSend w2 message conv
      in case load (contact_heap (mem w3)) contact of
           None \<Rightarrow> Inl NilDereference
         | Some cv \<Rightarrow>
             Inr (sig_send (Number cv) msg,
                  w3\<lparr>events := events w3 @ [SignalSend (Number cv) msg]\<rparr>))"

definition onReceived :: "world \<Rightarrow> signal_Message \<Rightarrow> panic + (go_error \<times> world)" where
  "onReceived w msg =
     (let receiveMsg = DataMessage (Envelope msg);
          contactNumber = Source (Envelope msg)
      in case (case contacts (siggo w) contactNumber of
                 None \<Rightarrow>
                   let (c, ch) = alloc (contact_heap (mem w)) \<lparr>Number = contactNumber, Name = []\<rparr>
                   in Inr (contactNumber, c,
                           w\<lparr>siggo := (siggo w)\<lparr>contacts := (contacts (siggo w))(contactNumber \<mapsto> c)\<rparr>,
                             mem := (mem w)\<lparr>contact_heap := ch\<rparr>\<rparr>)
               | Some c \<Rightarrow>
                   (case load (contact_heap (mem w)) c of
                      None \<Rightarrow> Inl NilDereference
                    | Some cv \<Rightarrow>
                        Inr (if Name cv = [] then contactNumber else Name cv, c, w)))
         of Inl e \<Rightarrow> Inl e
          | Inr (fromStr, c, w1) \<Rightarrow>
              let (message, mh) = alloc (msg_heap (mem w1))
                     \<lparr>Content = dmMessage receiveMsg, From = fromStr,
                      Timestamp = dmTimestamp receiveMsg,
                      IsDelivered = True, IsRead = False\<rparr>;
                  w2 = w1\<lparr>mem := (mem w1)\<lparr>msg_heap := mh\<rparr>\<rparr>;
                  (conv, w3) = (case conversations (siggo w2) c of
                                  None \<Rightarrow> newConversation w2 c
                                | Some conv \<Rightarrow> (conv, w2))
              in case AddMessage (mem w3) conv message of
                   Inl e \<Rightarrow> Inl e
                 | Inr h \<Rightarrow> Inr (None, w3\<lparr>mem := h, events := events w3 @ [NewInfo conv]\<rparr>))"

text \<open>
  The loop of \<^verbatim>\<open>onReceipt\<close> over the receipt's timestamps: \<^verbatim>\<open>conv.Messages[ts]\<close> reads
  the conversation through its pointer at every round, a missing key continues, and the
  two assignments go through the message's pointer.
\<close>

fun receipt_loop :: "heap \<Rightarrow> ptr \<Rightarrow> ReceiptMessage \<Rightarrow> int64 list \<Rightarrow> panic + heap" where
  "receipt_loop h conv receiptMsg [] = Inr h"
| "receipt_loop h conv receiptMsg (ts # tss) =
     (case load (conv_heap h) conv of
        None \<Rightarrow> Inl NilDereference
      | Some cv \<Rightarrow>
         (case Messages cv ts of
            None \<Rightarrow> receipt_loop h conv receiptMsg tss
          | Some message \<Rightarrow>
             (case load (msg_heap h) message of
                None \<Rightarrow> Inl NilDereference
              | Some mv \<Rightarrow>
                  receipt_loop
                    (h\<lparr>msg_heap := store (msg_heap h) message
                          (mv\<lparr>IsDelivered := IsDelivery receiptMsg,
                              IsRead := rmIsRead receiptMsg\<rparr>)\<rparr>)
                    conv receiptMsg tss)))"

definition onReceipt :: "world \<Rightarrow> signal_Message \<Rightarrow> panic + (go_error \<times> world)" where
  "onReceipt w msg =
     (let receiptMsg = ReceiptMessage (Envelope msg);
          contactNumber = Source (Envelope msg);
          (c, w1) = (case contacts (siggo w) contactNumber of
                       None \<Rightarrow> newContact w contactNumber
                     | Some c \<Rightarrow> (c, w));
          (conv, w2) = (case conversations (siggo w1) c of
                          None \<Rightarrow> newConversation w1 c
                        | Some conv \<Rightarrow> (conv, w1))
      in case receipt_loop (mem w2) conv receiptMsg (Timestamps receiptMsg) of
           Inl e \<Rightarrow> Inl e
         | Inr h \<Rightarrow> Inr (None, w2\<lparr>mem := h\<rparr>))"

subsection \<open>NewSiggo\<close>

definition GetContacts :: "heap \<Rightarrow> string \<Rightarrow> (string \<rightharpoonup> ptr) \<times> heap" where
  "GetContacts h userNumber =
     (let (contact, ch) = alloc (contact_heap h) \<lparr>Number = userNumber, Name = ''me''\<rparr>
      in (Map.empty(userNumber \<mapsto> contact), h\<lparr>contact_heap := ch\<rparr>))"

text \<open>
  \<^verbatim>\<open>GetConversations\<close> ranges over the contact map. Go visits every key once, in an
  order it does not specify: the order is the parameter \<open>ks\<close>, an enumeration of the
  map's keys.
\<close>

fun GetConversations_loop ::
    "heap \<Rightarrow> (string \<rightharpoonup> ptr) \<Rightarrow> string list \<Rightarrow> (ptr \<rightharpoonup> ptr) \<Rightarrow> (ptr \<rightharpoonup> ptr) \<times> heap" where
  "GetConversations_loop h cts [] convs = (convs, h)"
| "GetConversations_loop h cts (k # ks) convs =
     (let contact = index_ptr cts k;
          (conv, h') = NewConversation h contact
      in GetConversations_loop h' cts ks (convs(contact \<mapsto> conv)))"

definition GetConversations ::
    "heap \<Rightarrow> string \<Rightarrow> (string \<rightharpoonup> ptr) \<Rightarrow> string list \<Rightarrow> (ptr \<rightharpoonup> ptr) \<times> heap" where
  "GetConversations h userNumber cts ks = GetConversations_loop h cts ks Map.empty"

text \<open>
  \<^verbatim>\<open>NewSiggo\<close>, run on a store \<open>h\<close>. The map that \<^verbatim>\<open>GetContacts\<close> returns has the one key
  \<^verbatim>\<open>config.UserNumber\<close>, so the range of \<^verbatim>\<open>GetConversations\<close> has one order. The
  default \<^verbatim>\<open>NewInfo\<close> does nothing; the two registrations with the transport are events.
\<close>

definition NewSiggo :: "heap \<Rightarrow> Config \<Rightarrow> world" where
  "NewSiggo h cfg =
     (let (cts, h1) = GetContacts h (UserNumber cfg);
          (convs, h2) = GetConversations h1 (UserNumber cfg) cts [UserNumber cfg]
      in \<lparr>siggo = \<lparr>config = cfg, contacts = cts, conversations = convs\<rparr>,
          mem = h2,
          events = [OnReceivedRegistered, OnReceiptRegistered]\<rparr>)"

section \<open>Vocabulary of the properties\<close>

text \<open>
  The definitions of this section are not code of the program: they name what the
  properties talk about.

  The line form of a message, as the spec words it: the timestamp, a bar, the delivery
  glyph (\<open><\<close> if delivered, \<open>?\<close> if not), the read glyph (\<open>>\<close> if read, \<open>?\<close> if
  not), a space, the sender, a colon and a space, the content, a newline.
\<close>

definition line_form :: "Message \<Rightarrow> string" where
  "line_form mv =
     Sprintf_d (Timestamp mv) @ ''|''
     @ (if IsDelivered mv then ''<'' else ''?'')
     @ (if IsRead mv then ''>'' else ''?'')
     @ '' '' @ From mv @ '': '' @ Content mv @ [CHR 0x0A]"

text \<open>
  The conversation that \<^verbatim>\<open>NewConversation\<close> builds for a contact, and a conversation after
  a message \<open>m\<close> with timestamp \<open>ts\<close> has been added to it.
\<close>

definition empty_conversation :: "ptr \<Rightarrow> Conversation" where
  "empty_conversation c =
     \<lparr>Contact = c, Messages = Map.empty, MessageOrder = [], HasNewMessage = False\<rparr>"

definition added :: "Conversation \<Rightarrow> int64 \<Rightarrow> ptr \<Rightarrow> Conversation" where
  "added cv ts m =
     (if Messages cv ts = None
      then cv\<lparr>Messages := (Messages cv)(ts \<mapsto> m), MessageOrder := MessageOrder cv @ [ts],
              HasNewMessage := True\<rparr>
      else cv\<lparr>Messages := (Messages cv)(ts \<mapsto> m)\<rparr>)"

text \<open>
  The conversation that the registries hold for a sender identifier (none if the
  identifier has no contact, or the contact no conversation), and the message it stores
  under a timestamp.
\<close>

definition resolved_conversation :: "world \<Rightarrow> string \<Rightarrow> Conversation option" where
  "resolved_conversation w number =
     (case contacts (siggo w) number of
        None \<Rightarrow> None
      | Some c \<Rightarrow>
         (case conversations (siggo w) c of
            None \<Rightarrow> None
          | Some conv \<Rightarrow> load (conv_heap (mem w)) conv))"

definition stored_message :: "world \<Rightarrow> string \<Rightarrow> int64 \<Rightarrow> ptr option" where
  "stored_message w number ts =
     (case resolved_conversation w number of None \<Rightarrow> None | Some cv \<Rightarrow> Messages cv ts)"

text \<open>
  The state that the coordinator keeps: every registered contact is an object of the
  store, every key of the conversation registry is one, every registered conversation is
  one, every message a registered conversation stores is one (no registry entry and no
  stored message is nil), and the \<open>MessageOrder\<close> of a registered conversation lists the
  keys of its \<open>Messages\<close>, each once. \<open>NewSiggo\<close> establishes this and \<open>onReceived\<close>,
  \<open>onReceipt\<close> and \<open>Send\<close> keep it (lemmas \<open>wf_NewSiggo\<close>, \<open>wf_onReceived\<close>,
  \<open>wf_onReceipt\<close>, \<open>wf_Send\<close>): it holds in every state a session reaches.
\<close>

definition wf_world :: "world \<Rightarrow> bool" where
  "wf_world w \<longleftrightarrow>
     (\<forall>n c. contacts (siggo w) n = Some c \<longrightarrow> load (contact_heap (mem w)) c \<noteq> None) \<and>
     (\<forall>c conv. conversations (siggo w) c = Some conv \<longrightarrow>
        load (contact_heap (mem w)) c \<noteq> None \<and>
        (\<exists>cv. load (conv_heap (mem w)) conv = Some cv \<and>
           (\<forall>ts m. Messages cv ts = Some m \<longrightarrow> load (msg_heap (mem w)) m \<noteq> None) \<and>
           set (MessageOrder cv) = dom (Messages cv) \<and> distinct (MessageOrder cv)))"

text \<open>
  A message after a receipt has set its two flags.
\<close>

definition receipt_flags :: "ReceiptMessage \<Rightarrow> Message \<Rightarrow> Message" where
  "receipt_flags r mv = mv\<lparr>IsDelivered := IsDelivery r, IsRead := rmIsRead r\<rparr>"

text \<open>
  The first two steps of \<open>onReceipt\<close>, which find or create the contact and the
  conversation of the sender, taken out of its body so that lemmas can speak about them.
\<close>

definition receipt_target :: "world \<Rightarrow> string \<Rightarrow> ptr \<times> world" where
  "receipt_target w contactNumber =
     (let (c, w1) = (case contacts (siggo w) contactNumber of
                       None \<Rightarrow> newContact w contactNumber
                     | Some c \<Rightarrow> (c, w));
          (conv, w2) = (case conversations (siggo w1) c of
                          None \<Rightarrow> newConversation w1 c
                        | Some conv \<Rightarrow> (conv, w1))
      in (conv, w2))"

text \<open>
  The display name of a sender (the contact's name if it has one on file, the raw
  identifier otherwise), the message that \<open>onReceived\<close> builds for an event, and the
  message that \<open>Send\<close> builds for a text.
\<close>

definition display_name :: "world \<Rightarrow> string \<Rightarrow> string" where
  "display_name w number =
     (case contacts (siggo w) number of
        None \<Rightarrow> number
      | Some c \<Rightarrow>
         (case load (contact_heap (mem w)) c of
            None \<Rightarrow> number
          | Some cv \<Rightarrow> if Name cv = [] then number else Name cv))"

definition received_message :: "world \<Rightarrow> signal_Message \<Rightarrow> Message" where
  "received_message w msg =
     \<lparr>Content = dmMessage (DataMessage (Envelope msg)),
      From = display_name w (Source (Envelope msg)),
      Timestamp = dmTimestamp (DataMessage (Envelope msg)),
      IsDelivered = True, IsRead = False\<rparr>"

definition pending_message :: "world \<Rightarrow> string \<Rightarrow> Message" where
  "pending_message w msg =
     \<lparr>Content = msg, From = UserName (config (siggo w)), Timestamp = 0,
      IsDelivered = False, IsRead = False\<rparr>"

text \<open>
  A receipt event without one of its timestamps.
\<close>

definition without_timestamp :: "signal_Message \<Rightarrow> int64 \<Rightarrow> signal_Message" where
  "without_timestamp msg ts =
     msg\<lparr>Envelope := (Envelope msg)\<lparr>ReceiptMessage :=
        (ReceiptMessage (Envelope msg))\<lparr>Timestamps :=
           removeAll ts (Timestamps (ReceiptMessage (Envelope msg)))\<rparr>\<rparr>\<rparr>"


section \<open>Example states\<close>

text \<open>
  The objects of the spec's examples: the message of the receive event
  \<^verbatim>\<open>{from:"+1555", text:"hi", ts:100}\<close> and an empty conversation, in a store of their own.
\<close>

definition example_msg :: Message where
  "example_msg = \<lparr>Content = ''hi'', From = ''+1555'', Timestamp = 100,
                   IsDelivered = True, IsRead = False\<rparr>"

definition example_conv :: Conversation where
  "example_conv = \<lparr>Contact = Nil, Messages = Map.empty, MessageOrder = [],
                    HasNewMessage = False\<rparr>"

definition example_heap :: heap where
  "example_heap = \<lparr>contact_heap = [], conv_heap = [example_conv], msg_heap = [example_msg]\<rparr>"

text \<open>
  Four messages whose timestamps arrive out of order and with a repetition, and a
  conversation that holds two messages.
\<close>

definition msg_at :: "int64 \<Rightarrow> string \<Rightarrow> Message" where
  "msg_at t txt = \<lparr>Content = txt, From = ''+1555'', Timestamp = t,
                    IsDelivered = True, IsRead = False\<rparr>"

definition order_heap :: heap where
  "order_heap = \<lparr>contact_heap = [], conv_heap = [example_conv],
                  msg_heap = [msg_at 5 ''a'', msg_at 3 ''b'', msg_at 5 ''c'', msg_at 1 ''d'']\<rparr>"

definition render_heap :: heap where
  "render_heap = \<lparr>contact_heap = [],
     conv_heap = [\<lparr>Contact = Nil, Messages = [100 \<mapsto> Ptr 0, 7 \<mapsto> Ptr 1],
                   MessageOrder = [100, 7], HasNewMessage = True\<rparr>],
     msg_heap = [example_msg,
                 \<lparr>Content = ''yo'', From = ''me'', Timestamp = 7,
                  IsDelivered = False, IsRead = True\<rparr>]\<rparr>"

text \<open>
  A session: the state after \<open>NewSiggo\<close> on an empty store, events from the sender
  \<^verbatim>\<open>+1555\<close>, the state after the receive event, a transport whose \<^verbatim>\<open>Send\<close> fails, and the
  state after a failed send to the user's own contact.
\<close>

definition example_config :: Config where
  "example_config = \<lparr>UserName = ''me'', UserNumber = ''+1000''\<rparr>"

definition empty_heap :: heap where
  "empty_heap = \<lparr>contact_heap = [], conv_heap = [], msg_heap = []\<rparr>"

definition world0 :: world where
  "world0 = NewSiggo empty_heap example_config"

definition event_from :: "string \<Rightarrow> string \<Rightarrow> int64 \<Rightarrow> bool \<Rightarrow> bool \<Rightarrow> int64 list \<Rightarrow> signal_Message" where
  "event_from src txt ts delivered read tss =
     \<lparr>Envelope = \<lparr>Source = src,
                   DataMessage = \<lparr>dmMessage = txt, dmTimestamp = ts\<rparr>,
                   ReceiptMessage = \<lparr>IsDelivery = delivered, rmIsRead = read, Timestamps = tss\<rparr>\<rparr>\<rparr>"

definition received_event :: signal_Message where
  "received_event = event_from ''+1555'' ''hi'' 100 False False []"

definition read_receipt :: signal_Message where
  "read_receipt = event_from ''+1555'' [] 0 True True [100]"

definition negative_receipt :: signal_Message where
  "negative_receipt = event_from ''+1555'' [] 0 False False [100]"

definition unknown_receipt :: signal_Message where
  "unknown_receipt = event_from ''+1555'' [] 0 True True [999]"

definition world1 :: world where
  "world1 = (case onReceived world0 received_event of Inr (e, w) \<Rightarrow> w | Inl p \<Rightarrow> world0)"

definition failing_send :: "string \<Rightarrow> string \<Rightarrow> go_error" where
  "failing_send number text = Some ''send failed''"

definition failed_send_world :: world where
  "failed_send_world =
     (case Send failing_send world0 ''hello'' (Ptr 0) of Inr (e, w) \<Rightarrow> w | Inl p \<Rightarrow> world0)"


section \<open>Properties\<close>

subsection \<open>The store\<close>

lemma load_Nil [simp]: "load objs Nil = None"
  by (simp add: load_def)

lemma load_Some_iff:
  "load objs p = Some v \<longleftrightarrow> (\<exists>a. p = Ptr a \<and> a < length objs \<and> objs ! a = v)"
  by (cases p) (auto simp: load_def)

lemma load_None_iff:
  "load objs p = None \<longleftrightarrow> (p = Nil \<or> (\<exists>a. p = Ptr a \<and> length objs \<le> a))"
  by (cases p) (auto simp: load_def)

lemma load_fresh [simp]: "load objs (Ptr (length objs)) = None"
  by (simp add: load_def)

lemma load_snoc:
  "load (objs @ [v]) p = (if p = Ptr (length objs) then Some v else load objs p)"
  by (cases p) (auto simp: load_def nth_append)

lemma load_store:
  "load (store objs p v) q = (if q = p \<and> load objs p \<noteq> None then Some v else load objs q)"
  by (cases p; cases q) (auto simp: load_def store_def)

lemma length_store [simp]: "length (store objs p v) = length objs"
  by (cases p) (simp_all add: store_def)

lemma store_snoc_last [simp]: "store (xs @ [x]) (Ptr (length xs)) v = xs @ [v]"
  by (simp add: store_def)

lemma loads_equal_lists:
  assumes "length xs = length ys" and "\<forall>p x. load xs p = Some x \<longrightarrow> load ys p = Some x"
  shows "ys = xs"
proof (rule nth_equalityI)
  show "length ys = length xs" using assms(1) by simp
next
  fix i assume "i < length ys"
  with assms(1) have "load xs (Ptr i) = Some (xs ! i)" by (simp add: load_def)
  with assms(2) have "load ys (Ptr i) = Some (xs ! i)" by blast
  with \<open>i < length ys\<close> show "ys ! i = xs ! i" by (simp add: load_def)
qed

subsection \<open>NewSiggo\<close>

lemma NewSiggo_eval:
  "NewSiggo h cfg =
     \<lparr>siggo = \<lparr>config = cfg,
               contacts = [UserNumber cfg \<mapsto> Ptr (length (contact_heap h))],
               conversations = [Ptr (length (contact_heap h)) \<mapsto> Ptr (length (conv_heap h))]\<rparr>,
      mem = h\<lparr>contact_heap := contact_heap h @ [\<lparr>Number = UserNumber cfg, Name = ''me''\<rparr>],
              conv_heap := conv_heap h @ [\<lparr>Contact = Ptr (length (contact_heap h)),
                 Messages = Map.empty, MessageOrder = [], HasNewMessage = False\<rparr>]\<rparr>,
      events = [OnReceivedRegistered, OnReceiptRegistered]\<rparr>"
  by (simp add: NewSiggo_def GetContacts_def GetConversations_def NewConversation_def
        alloc_def index_ptr_def Let_def)

text \<open>
  C10. On every store \<open>h\<close> and for every configuration, the contact registry of the state
  that \<open>NewSiggo\<close> builds is the one-entry map from the configured user number to a new
  contact with that number and the name "me", and its conversation registry is the
  one-entry map from that contact to a new conversation, which belongs to that contact,
  has no messages, an empty order and \<open>HasNewMessage = False\<close>. The transport takes no
  part in building the state.
\<close>

theorem NewSiggo_initial_state:
  "contacts (siggo (NewSiggo h cfg)) = [UserNumber cfg \<mapsto> Ptr (length (contact_heap h))] \<and>
   load (contact_heap (mem (NewSiggo h cfg))) (Ptr (length (contact_heap h))) =
     Some \<lparr>Number = UserNumber cfg, Name = ''me''\<rparr> \<and>
   conversations (siggo (NewSiggo h cfg)) =
     [Ptr (length (contact_heap h)) \<mapsto> Ptr (length (conv_heap h))] \<and>
   load (conv_heap (mem (NewSiggo h cfg))) (Ptr (length (conv_heap h))) =
     Some \<lparr>Contact = Ptr (length (contact_heap h)), Messages = Map.empty,
           MessageOrder = [], HasNewMessage = False\<rparr>"
  by (simp add: NewSiggo_eval load_snoc)

subsection \<open>AddMessage\<close>

lemma AddMessage_eval:
  assumes "load (conv_heap h) c = Some cv" and "load (msg_heap h) m = Some mv"
  shows "AddMessage h c m =
     Inr (h\<lparr>conv_heap := store (conv_heap h) c
            (if Messages cv (Timestamp mv) = None
             then cv\<lparr>Messages := (Messages cv)(Timestamp mv \<mapsto> m),
                     MessageOrder := MessageOrder cv @ [Timestamp mv],
                     HasNewMessage := True\<rparr>
             else cv\<lparr>Messages := (Messages cv)(Timestamp mv \<mapsto> m)\<rparr>)\<rparr>)"
  using assms by (auto simp: AddMessage_def Let_def)

text \<open>
  C1. For a conversation \<open>c\<close> and a message \<open>m\<close> of the store, \<open>AddMessage\<close> returns, and
  the conversation's map then holds \<open>m\<close> under \<open>m\<close>'s timestamp and is otherwise as before.
  If the timestamp was not a key, it is appended to \<open>MessageOrder\<close> and \<open>HasNewMessage\<close>
  is true; if it was a key, \<open>MessageOrder\<close> and \<open>HasNewMessage\<close> are unchanged and the
  entry now is the pointer \<open>m\<close> (the whole message is replaced, no field is merged).
  Nothing else of the store changes: no message, no contact, no other conversation.
\<close>

theorem AddMessage_behaviour:
  assumes "load (conv_heap h) c = Some cv" and "load (msg_heap h) m = Some mv"
  shows "\<exists>h' cv'.
     AddMessage h c m = Inr h' \<and>
     load (conv_heap h') c = Some cv' \<and>
     Messages cv' = (Messages cv)(Timestamp mv \<mapsto> m) \<and>
     (if Messages cv (Timestamp mv) = None
      then MessageOrder cv' = MessageOrder cv @ [Timestamp mv] \<and> HasNewMessage cv' = True
      else MessageOrder cv' = MessageOrder cv \<and> HasNewMessage cv' = HasNewMessage cv) \<and>
     Contact cv' = Contact cv \<and>
     msg_heap h' = msg_heap h \<and> contact_heap h' = contact_heap h \<and>
     length (conv_heap h') = length (conv_heap h) \<and>
     (\<forall>c'. c' \<noteq> c \<longrightarrow> load (conv_heap h') c' = load (conv_heap h) c')"
  using assms by (auto simp: AddMessage_def Let_def load_store)

theorem AddMessage_behaviour_witness:
  "load (conv_heap example_heap) (Ptr 0) = Some example_conv \<and>
   load (msg_heap example_heap) (Ptr 0) = Some example_msg \<and>
   (\<exists>h' cv'. AddMessage example_heap (Ptr 0) (Ptr 0) = Inr h' \<and>
      load (conv_heap h') (Ptr 0) = Some cv' \<and>
      Messages cv' = [100 \<mapsto> Ptr 0] \<and> MessageOrder cv' = [100] \<and> HasNewMessage cv')"
proof -
  have c: "load (conv_heap example_heap) (Ptr 0) = Some example_conv"
    by (simp add: example_heap_def load_def)
  have m: "load (msg_heap example_heap) (Ptr 0) = Some example_msg"
    by (simp add: example_heap_def load_def)
  from AddMessage_behaviour [OF c m] c m show ?thesis
    by (auto simp: example_conv_def example_msg_def)
qed

lemma AddMessages_append:
  "AddMessages h c (xs @ ys) =
     (case AddMessages h c xs of Inl e \<Rightarrow> Inl e | Inr h' \<Rightarrow> AddMessages h' c ys)"
  by (induction xs arbitrary: h) (auto split: sum.splits)

lemma AddMessages_from_empty:
  assumes "load (conv_heap h) c = Some cv"
    and "Messages cv = Map.empty" and "MessageOrder cv = []"
    and "map (load (msg_heap h)) ms = map Some mvs"
  shows "\<exists>h' cv'. AddMessages h c ms = Inr h' \<and> msg_heap h' = msg_heap h \<and>
           load (conv_heap h') c = Some cv' \<and>
           dom (Messages cv') = set (map Timestamp mvs) \<and>
           MessageOrder cv' = rev (remdups (rev (map Timestamp mvs)))"
  using assms(4)
proof (induction ms arbitrary: mvs rule: rev_induct)
  case Nil
  with assms(1-3) show ?case by simp
next
  case (snoc m ms)
  from snoc.prems obtain mvs0 mv where mvs: "mvs = mvs0 @ [mv]"
    and pre: "map (load (msg_heap h)) ms = map Some mvs0"
    and m: "load (msg_heap h) m = Some mv"
    by (cases mvs rule: rev_cases) auto
  from snoc.IH [OF pre] obtain h1 cv1 where
    run: "AddMessages h c ms = Inr h1" and mh: "msg_heap h1 = msg_heap h"
    and c1: "load (conv_heap h1) c = Some cv1"
    and d1: "dom (Messages cv1) = set (map Timestamp mvs0)"
    and o1: "MessageOrder cv1 = rev (remdups (rev (map Timestamp mvs0)))"
    by blast
  from m mh have m1: "load (msg_heap h1) m = Some mv" by simp
  define cv2 where "cv2 =
     (if Messages cv1 (Timestamp mv) = None
      then cv1\<lparr>Messages := (Messages cv1)(Timestamp mv \<mapsto> m),
               MessageOrder := MessageOrder cv1 @ [Timestamp mv],
               HasNewMessage := True\<rparr>
      else cv1\<lparr>Messages := (Messages cv1)(Timestamp mv \<mapsto> m)\<rparr>)"
  define h2 where "h2 = h1\<lparr>conv_heap := store (conv_heap h1) c cv2\<rparr>"
  have add: "AddMessage h1 c m = Inr h2"
    unfolding h2_def cv2_def by (rule AddMessage_eval [OF c1 m1])
  have c2: "load (conv_heap h2) c = Some cv2"
    using c1 by (simp add: h2_def load_store)
  have ms2: "Messages cv2 = (Messages cv1)(Timestamp mv \<mapsto> m)"
    by (simp add: cv2_def)
  have o2: "MessageOrder cv2 =
     (if Messages cv1 (Timestamp mv) = None then MessageOrder cv1 @ [Timestamp mv]
      else MessageOrder cv1)"
    by (simp add: cv2_def)
  have mh2: "msg_heap h2 = msg_heap h1"
    by (simp add: h2_def)
  have key: "Messages cv1 (Timestamp mv) = None \<longleftrightarrow> Timestamp mv \<notin> set (map Timestamp mvs0)"
    using d1 domIff [of "Timestamp mv" "Messages cv1"] by simp
  have "AddMessages h c (ms @ [m]) = Inr h2"
    by (simp add: AddMessages_append run add)
  moreover have "dom (Messages cv2) = set (map Timestamp mvs)"
    using ms2 d1 mvs by auto
  moreover have "MessageOrder cv2 = rev (remdups (rev (map Timestamp mvs)))"
    using o2 o1 key mvs by simp
  ultimately show ?case using c2 mh mh2 by simp
qed

lemma distinct_count_list_1: "distinct xs \<Longrightarrow> x \<in> set xs \<Longrightarrow> count_list xs x = 1"
  by (induction xs) auto

text \<open>
  C2. A conversation that starts empty, after any finite run of \<open>AddMessage\<close> calls with
  messages of the store: the run returns, \<open>MessageOrder\<close> has exactly the keys of
  \<open>Messages\<close>, each of them once, it has no duplicates, its length is the number of
  distinct timestamps inserted, and it lists the timestamps in the order of their first
  insertion (the inserted timestamps with every later repetition dropped), whatever their
  values. In the example the timestamps 5, 3, 5, 1 give the order 5, 3, 1.
\<close>

theorem MessageOrder_first_insertion:
  assumes "load (conv_heap h) c = Some cv"
    and "Messages cv = Map.empty" and "MessageOrder cv = []"
    and "map (load (msg_heap h)) ms = map Some mvs"
  shows "\<exists>h' cv'. AddMessages h c ms = Inr h' \<and>
           load (conv_heap h') c = Some cv' \<and>
           set (MessageOrder cv') = dom (Messages cv') \<and>
           (\<forall>k \<in> dom (Messages cv'). count_list (MessageOrder cv') k = 1) \<and>
           distinct (MessageOrder cv') \<and>
           length (MessageOrder cv') = card (Timestamp ` set mvs) \<and>
           MessageOrder cv' = rev (remdups (rev (map Timestamp mvs)))"
proof -
  from AddMessages_from_empty [OF assms] obtain h' cv' where
    run: "AddMessages h c ms = Inr h'" and c': "load (conv_heap h') c = Some cv'"
    and d: "dom (Messages cv') = set (map Timestamp mvs)"
    and ord: "MessageOrder cv' = rev (remdups (rev (map Timestamp mvs)))"
    by blast
  have s: "set (MessageOrder cv') = dom (Messages cv')"
    using d ord by simp
  have dist: "distinct (MessageOrder cv')"
    using ord by simp
  have cnt: "\<forall>k \<in> dom (Messages cv'). count_list (MessageOrder cv') k = 1"
    using dist s by (simp add: distinct_count_list_1)
  have "length (MessageOrder cv') = card (set (rev (map Timestamp mvs)))"
    unfolding ord length_rev by (rule length_remdups_card_conv)
  then have len: "length (MessageOrder cv') = card (Timestamp ` set mvs)"
    by simp
  from run c' s cnt dist len ord show ?thesis by blast
qed

theorem MessageOrder_first_insertion_witness:
  "\<exists>h' cv'. AddMessages order_heap (Ptr 0) [Ptr 0, Ptr 1, Ptr 2, Ptr 3] = Inr h' \<and>
      load (conv_heap h') (Ptr 0) = Some cv' \<and>
      MessageOrder cv' = [5, 3, 1] \<and> dom (Messages cv') = {5, 3, 1}"
proof -
  have c: "load (conv_heap order_heap) (Ptr 0) = Some example_conv"
    by (simp add: order_heap_def load_def)
  have e: "Messages example_conv = Map.empty" "MessageOrder example_conv = []"
    by (simp_all add: example_conv_def)
  have m: "map (load (msg_heap order_heap)) [Ptr 0, Ptr 1, Ptr 2, Ptr 3] =
           map Some [msg_at 5 ''a'', msg_at 3 ''b'', msg_at 5 ''c'', msg_at 1 ''d'']"
    by (simp add: order_heap_def load_def)
  from MessageOrder_first_insertion [OF c e m] obtain h' cv' where
    "AddMessages order_heap (Ptr 0) [Ptr 0, Ptr 1, Ptr 2, Ptr 3] = Inr h'"
    "load (conv_heap h') (Ptr 0) = Some cv'"
    "set (MessageOrder cv') = dom (Messages cv')"
    "MessageOrder cv' =
       rev (remdups (rev (map Timestamp
         [msg_at 5 ''a'', msg_at 3 ''b'', msg_at 5 ''c'', msg_at 1 ''d''])))"
    by blast
  then show ?thesis
    by (intro exI [of _ h'] exI [of _ cv']) (auto simp: msg_at_def)
qed

subsection \<open>Rendering\<close>

lemma Sprintf_d_100: "Sprintf_d 100 = ''100''"
  by (simp add: Sprintf_d_def show_int_def digit_char_def)

lemma Sprintf_d_7: "Sprintf_d 7 = ''7''"
  by (simp add: Sprintf_d_def show_int_def digit_char_def)

lemma Sprintf_d_neg: "Sprintf_d (- 12) = ''-12''"
  by (simp add: Sprintf_d_def show_int_def digit_char_def)

lemma Message_String_line:
  "load (msg_heap h) m = Some mv \<Longrightarrow> Message_String h m = Inr (line_form mv)"
  by (simp add: Message_String_def line_form_def index_str_def DeliveryStatus_def ReadStatus_def)

lemma String_loop_concat:
  assumes "map (Messages cv) ks = map Some ps" and "map (load (msg_heap h)) ps = map Some mvs"
  shows "String_loop h cv ks out = Inr (out @ concat (map line_form mvs))"
  using assms
proof (induction ks arbitrary: out ps mvs)
  case Nil
  then show ?case by simp
next
  case (Cons k ks)
  from Cons.prems obtain p ps' mv mvs' where
    ps: "ps = p # ps'" and mvs: "mvs = mv # mvs'"
    and k: "Messages cv k = Some p" and rest: "map (Messages cv) ks = map Some ps'"
    and p: "load (msg_heap h) p = Some mv" and rest': "map (load (msg_heap h)) ps' = map Some mvs'"
    by (cases ps; cases mvs) auto
  from Cons.IH [OF rest rest'] k p show ?case
    by (simp add: index_ptr_def Message_String_line mvs)
qed

lemma String_loop_missing_key:
  "k \<in> set ks \<Longrightarrow> Messages cv k = None \<Longrightarrow> String_loop h cv ks out = Inl NilDereference"
proof (induction ks arbitrary: out)
  case Nil
  then show ?case by simp
next
  case (Cons a ks)
  show ?case
  proof (cases "a = k")
    case True
    with Cons.prems show ?thesis
      by (simp add: index_ptr_def Message_String_def)
  next
    case False
    with Cons show ?thesis
      by (cases "Message_String h (index_ptr (Messages cv) a)")
         (auto simp: Message_String_def split: option.splits)
  qed
qed

text \<open>
  C7. For a conversation of the store whose \<open>MessageOrder\<close> entries are keys of
  \<open>Messages\<close> that hold messages of the store (the invariant of C2),
  \<open>Conversation_String\<close> returns the concatenation, along \<open>MessageOrder\<close>, of the line
  forms of the stored messages. The example renders the spec's line
  \<^verbatim>\<open>100|<? +1555: hi\<close> and a line with the other two glyphs.
\<close>

theorem Conversation_String_rendering:
  assumes "load (conv_heap h) c = Some cv"
    and "map (Messages cv) (MessageOrder cv) = map Some ps"
    and "map (load (msg_heap h)) ps = map Some mvs"
  shows "Conversation_String h c = Inr (concat (map line_form mvs))"
  using assms by (simp add: Conversation_String_def String_loop_concat)

theorem Conversation_String_rendering_witness:
  "Conversation_String render_heap (Ptr 0) = Inr (''100|<? +1555: hi'' @ [CHR 0x0A] @ ''7|?> me: yo'' @ [CHR 0x0A])"
proof -
  have c: "load (conv_heap render_heap) (Ptr 0) =
      Some \<lparr>Contact = Nil, Messages = [100 \<mapsto> Ptr 0, 7 \<mapsto> Ptr 1],
            MessageOrder = [100, 7], HasNewMessage = True\<rparr>"
    by (simp add: render_heap_def load_def)
  have k: "map (Messages \<lparr>Contact = Nil, Messages = [100 \<mapsto> Ptr 0, 7 \<mapsto> Ptr 1],
            MessageOrder = [100, 7], HasNewMessage = True\<rparr>)
             (MessageOrder \<lparr>Contact = Nil, Messages = [100 \<mapsto> Ptr 0, 7 \<mapsto> Ptr 1],
            MessageOrder = [100, 7], HasNewMessage = True\<rparr>) = map Some [Ptr 0, Ptr 1]"
    by simp
  have m: "map (load (msg_heap render_heap)) [Ptr 0, Ptr 1] =
      map Some [example_msg, \<lparr>Content = ''yo'', From = ''me'', Timestamp = 7,
                  IsDelivered = False, IsRead = True\<rparr>]"
    by (simp add: render_heap_def load_def)
  from Conversation_String_rendering [OF c k m] show ?thesis
    by (simp add: line_form_def example_msg_def Sprintf_d_100 Sprintf_d_7)
qed

text \<open>
  Outside that invariant the code has no rendering: an entry of \<open>MessageOrder\<close> that is
  not a key reads a nil message, and \<^verbatim>\<open>String\<close> panics.
\<close>

lemma Conversation_String_missing_key:
  assumes "load (conv_heap h) c = Some cv" and "k \<in> set (MessageOrder cv)"
    and "Messages cv k = None"
  shows "Conversation_String h c = Inl NilDereference"
  using assms by (simp add: Conversation_String_def String_loop_missing_key)

subsection \<open>Well-formed states\<close>

lemma newContact_eval:
  "newContact w n =
     (Ptr (length (contact_heap (mem w))),
      w\<lparr>siggo := (siggo w)\<lparr>contacts := (contacts (siggo w))(n \<mapsto> Ptr (length (contact_heap (mem w))))\<rparr>,
        mem := (mem w)\<lparr>contact_heap := contact_heap (mem w) @ [\<lparr>Number = n, Name = []\<rparr>]\<rparr>\<rparr>)"
  by (simp add: newContact_def alloc_def)

lemma newConversation_eval:
  "newConversation w c =
     (Ptr (length (conv_heap (mem w))),
      w\<lparr>siggo := (siggo w)\<lparr>conversations := (conversations (siggo w))(c \<mapsto> Ptr (length (conv_heap (mem w))))\<rparr>,
        mem := (mem w)\<lparr>conv_heap := conv_heap (mem w) @
          [\<lparr>Contact = c, Messages = Map.empty, MessageOrder = [], HasNewMessage = False\<rparr>]\<rparr>\<rparr>)"
  by (simp add: newConversation_def NewConversation_def alloc_def)

lemma wf_contactD:
  "wf_world w \<Longrightarrow> contacts (siggo w) n = Some c \<Longrightarrow> \<exists>x. load (contact_heap (mem w)) c = Some x"
  unfolding wf_world_def by blast

lemma wf_conversation_keyD:
  "wf_world w \<Longrightarrow> conversations (siggo w) c = Some conv \<Longrightarrow>
     \<exists>x. load (contact_heap (mem w)) c = Some x"
  unfolding wf_world_def by blast

lemma wf_conversationD:
  "wf_world w \<Longrightarrow> conversations (siggo w) c = Some conv \<Longrightarrow>
     \<exists>cv. load (conv_heap (mem w)) conv = Some cv \<and>
        (\<forall>ts m. Messages cv ts = Some m \<longrightarrow> load (msg_heap (mem w)) m \<noteq> None) \<and>
        set (MessageOrder cv) = dom (Messages cv) \<and> distinct (MessageOrder cv)"
  unfolding wf_world_def by blast

lemma wf_newContact: "wf_world w \<Longrightarrow> wf_world (snd (newContact w n))"
  by (auto simp: wf_world_def newContact_eval load_snoc)

lemma wf_newConversation:
  "wf_world w \<Longrightarrow> load (contact_heap (mem w)) c \<noteq> None \<Longrightarrow> wf_world (snd (newConversation w c))"
  by (auto simp: wf_world_def newConversation_eval load_snoc)

lemma wf_fresh_contact_no_conversation:
  assumes "wf_world w"
  shows "conversations (siggo w) (Ptr (length (contact_heap (mem w)))) = None"
proof (cases "conversations (siggo w) (Ptr (length (contact_heap (mem w))))")
  case None
  then show ?thesis .
next
  case (Some conv)
  from wf_conversation_keyD [OF assms Some] show ?thesis by simp
qed

lemma wf_world_mem_update:
  assumes "wf_world w" and "conv_heap h = conv_heap (mem w)"
    and "contact_heap h = contact_heap (mem w)"
    and "length (msg_heap h) = length (msg_heap (mem w))"
  shows "wf_world (w\<lparr>mem := h\<rparr>)"
proof -
  have "load (msg_heap h) m \<noteq> None \<longleftrightarrow> load (msg_heap (mem w)) m \<noteq> None" for m
    using assms(4) by (cases m) (simp_all add: load_def)
  with assms(1-3) show ?thesis
    by (simp add: wf_world_def)
qed

lemma wf_NewSiggo: "wf_world (NewSiggo h cfg)"
  by (simp add: wf_world_def NewSiggo_eval load_snoc)

lemma world0_eval:
  "world0 =
     \<lparr>siggo = \<lparr>config = example_config, contacts = [''+1000'' \<mapsto> Ptr 0],
               conversations = [Ptr 0 \<mapsto> Ptr 0]\<rparr>,
      mem = \<lparr>contact_heap = [\<lparr>Number = ''+1000'', Name = ''me''\<rparr>],
             conv_heap = [empty_conversation (Ptr 0)], msg_heap = []\<rparr>,
      events = [OnReceivedRegistered, OnReceiptRegistered]\<rparr>"
  by (simp add: world0_def NewSiggo_eval empty_heap_def example_config_def empty_conversation_def)

lemma wf_world0: "wf_world world0"
  unfolding world0_def by (rule wf_NewSiggo)

text \<open>
  In a well-formed state every registered conversation renders: \<^verbatim>\<open>String\<close> does not
  panic on it.
\<close>

lemma map_Some_ex: "\<forall>x \<in> set xs. f x \<noteq> None \<Longrightarrow> \<exists>ys. map f xs = map Some ys"
proof (induction xs)
  case Nil
  then show ?case by simp
next
  case (Cons x xs)
  then obtain ys y where "map f xs = map Some ys" "f x = Some y" by auto
  then have "map f (x # xs) = map Some (y # ys)" by simp
  then show ?case by blast
qed

lemma wf_conversation_renders:
  assumes wf: "wf_world w" and reg: "conversations (siggo w) c = Some conv"
  shows "\<exists>cv ps mvs. load (conv_heap (mem w)) conv = Some cv \<and>
     map (Messages cv) (MessageOrder cv) = map Some ps \<and>
     map (load (msg_heap (mem w))) ps = map Some mvs \<and>
     Conversation_String (mem w) conv = Inr (concat (map line_form mvs))"
proof -
  from wf_conversationD [OF wf reg] obtain cv where
    cv: "load (conv_heap (mem w)) conv = Some cv"
    and al: "\<forall>ts m. Messages cv ts = Some m \<longrightarrow> load (msg_heap (mem w)) m \<noteq> None"
    and inv: "set (MessageOrder cv) = dom (Messages cv)"
    by blast
  from inv have "\<forall>k \<in> set (MessageOrder cv). Messages cv k \<noteq> None"
    by (auto simp: domIff)
  from map_Some_ex [OF this] obtain ps where
    ps: "map (Messages cv) (MessageOrder cv) = map Some ps" by blast
  have "\<forall>p \<in> set ps. load (msg_heap (mem w)) p \<noteq> None"
  proof
    fix p assume "p \<in> set ps"
    then have "Some p \<in> set (map (Messages cv) (MessageOrder cv))"
      unfolding ps by simp
    then obtain k where "Messages cv k = Some p" by auto
    with al show "load (msg_heap (mem w)) p \<noteq> None" by blast
  qed
  from map_Some_ex [OF this] obtain mvs where
    mvs: "map (load (msg_heap (mem w))) ps = map Some mvs" by blast
  have "Conversation_String (mem w) conv = Inr (concat (map line_form mvs))"
    using cv by (simp add: Conversation_String_def String_loop_concat [OF ps mvs])
  with cv ps mvs show ?thesis by blast
qed

subsection \<open>onReceived\<close>

lemma onReceived_unknown_sender:
  assumes wf: "wf_world w" and new: "contacts (siggo w) (Source (Envelope msg)) = None"
  shows "onReceived w msg =
     Inr (None,
       \<lparr>siggo = (siggo w)\<lparr>
           contacts := (contacts (siggo w))(Source (Envelope msg) \<mapsto> Ptr (length (contact_heap (mem w)))),
           conversations := (conversations (siggo w))
              (Ptr (length (contact_heap (mem w))) \<mapsto> Ptr (length (conv_heap (mem w))))\<rparr>,
        mem = \<lparr>contact_heap = contact_heap (mem w) @ [\<lparr>Number = Source (Envelope msg), Name = []\<rparr>],
               conv_heap = conv_heap (mem w) @
                 [added (empty_conversation (Ptr (length (contact_heap (mem w)))))
                    (dmTimestamp (DataMessage (Envelope msg))) (Ptr (length (msg_heap (mem w))))],
               msg_heap = msg_heap (mem w) @ [received_message w msg]\<rparr>,
        events = events w @ [NewInfo (Ptr (length (conv_heap (mem w))))]\<rparr>)"
  using new wf_fresh_contact_no_conversation [OF wf]
  by (simp add: onReceived_def Let_def alloc_def newConversation_eval AddMessage_def
        load_snoc store_def received_message_def display_name_def added_def
        empty_conversation_def)

lemma onReceived_new_conversation:
  assumes "contacts (siggo w) (Source (Envelope msg)) = Some c"
    and "load (contact_heap (mem w)) c = Some cc"
    and "conversations (siggo w) c = None"
  shows "onReceived w msg =
     Inr (None,
       w\<lparr>siggo := (siggo w)\<lparr>conversations :=
             (conversations (siggo w))(c \<mapsto> Ptr (length (conv_heap (mem w))))\<rparr>,
         mem := (mem w)\<lparr>
             conv_heap := conv_heap (mem w) @
               [added (empty_conversation c) (dmTimestamp (DataMessage (Envelope msg)))
                  (Ptr (length (msg_heap (mem w))))],
             msg_heap := msg_heap (mem w) @ [received_message w msg]\<rparr>,
         events := events w @ [NewInfo (Ptr (length (conv_heap (mem w))))]\<rparr>)"
  using assms
  by (simp add: onReceived_def Let_def alloc_def newConversation_eval AddMessage_def
        load_snoc store_def received_message_def display_name_def added_def
        empty_conversation_def)

lemma onReceived_known_conversation:
  assumes "contacts (siggo w) (Source (Envelope msg)) = Some c"
    and "load (contact_heap (mem w)) c = Some cc"
    and "conversations (siggo w) c = Some conv"
    and "load (conv_heap (mem w)) conv = Some cv"
  shows "onReceived w msg =
     Inr (None,
       w\<lparr>mem := (mem w)\<lparr>
             conv_heap := store (conv_heap (mem w)) conv
               (added cv (dmTimestamp (DataMessage (Envelope msg)))
                  (Ptr (length (msg_heap (mem w))))),
             msg_heap := msg_heap (mem w) @ [received_message w msg]\<rparr>,
         events := events w @ [NewInfo conv]\<rparr>)"
  using assms
  by (simp add: onReceived_def Let_def alloc_def AddMessage_def
        load_snoc received_message_def display_name_def added_def)

lemma wf_onReceived_unknown:
  assumes wf: "wf_world w"
  shows "wf_world
       \<lparr>siggo = (siggo w)\<lparr>
           contacts := (contacts (siggo w))(n \<mapsto> Ptr (length (contact_heap (mem w)))),
           conversations := (conversations (siggo w))
              (Ptr (length (contact_heap (mem w))) \<mapsto> Ptr (length (conv_heap (mem w))))\<rparr>,
        mem = \<lparr>contact_heap = contact_heap (mem w) @ [cc],
               conv_heap = conv_heap (mem w) @
                 [added (empty_conversation (Ptr (length (contact_heap (mem w))))) ts
                    (Ptr (length (msg_heap (mem w))))],
               msg_heap = msg_heap (mem w) @ [mv]\<rparr>,
        events = ev\<rparr>"
  unfolding wf_world_def
proof (intro conjI allI impI, goal_cases)
  case (1 n' c)
  with wf_contactD [OF wf, of n' c] show ?case
    by (auto simp: load_snoc split: if_splits)
next
  case (2 c conv)
  with wf_conversation_keyD [OF wf, of c conv] show ?case
    by (auto simp: load_snoc split: if_splits)
next
  case (3 c conv)
  show ?case
  proof (cases "c = Ptr (length (contact_heap (mem w)))")
    case True
    with 3 show ?thesis
      by (auto simp: load_snoc added_def empty_conversation_def)
  next
    case False
    with 3 have old: "conversations (siggo w) c = Some conv" by simp
    from wf_conversationD [OF wf old] obtain cv where
      cv: "load (conv_heap (mem w)) conv = Some cv"
      and al: "\<forall>ts m. Messages cv ts = Some m \<longrightarrow> load (msg_heap (mem w)) m \<noteq> None"
      and inv: "set (MessageOrder cv) = dom (Messages cv)" "distinct (MessageOrder cv)"
      by blast
    from cv have "conv \<noteq> Ptr (length (conv_heap (mem w)))" by auto
    with cv al inv show ?thesis
      by (auto simp: load_snoc)
  qed
qed

lemma wf_onReceived_new_conversation:
  assumes wf: "wf_world w" and c: "load (contact_heap (mem w)) c = Some cc"
  shows "wf_world
       (w\<lparr>siggo := (siggo w)\<lparr>conversations :=
             (conversations (siggo w))(c \<mapsto> Ptr (length (conv_heap (mem w))))\<rparr>,
         mem := (mem w)\<lparr>
             conv_heap := conv_heap (mem w) @
               [added (empty_conversation c) ts (Ptr (length (msg_heap (mem w))))],
             msg_heap := msg_heap (mem w) @ [mv]\<rparr>,
         events := ev\<rparr>)"
  unfolding wf_world_def
proof (intro conjI allI impI, goal_cases)
  case (1 n' c')
  with wf_contactD [OF wf, of n' c'] show ?case
    by auto
next
  case (2 c' conv)
  with wf_conversation_keyD [OF wf, of c' conv] c show ?case
    by (auto split: if_splits)
next
  case (3 c' conv)
  show ?case
  proof (cases "c' = c")
    case True
    with 3 show ?thesis
      by (auto simp: load_snoc added_def empty_conversation_def)
  next
    case False
    with 3 have old: "conversations (siggo w) c' = Some conv" by simp
    from wf_conversationD [OF wf old] obtain cv where
      cv: "load (conv_heap (mem w)) conv = Some cv"
      and al: "\<forall>ts m. Messages cv ts = Some m \<longrightarrow> load (msg_heap (mem w)) m \<noteq> None"
      and inv: "set (MessageOrder cv) = dom (Messages cv)" "distinct (MessageOrder cv)"
      by blast
    from cv have "conv \<noteq> Ptr (length (conv_heap (mem w)))" by auto
    with cv al inv show ?thesis
      by (auto simp: load_snoc)
  qed
qed

lemma added_invariant:
  assumes "set (MessageOrder cv) = dom (Messages cv)" and "distinct (MessageOrder cv)"
  shows "set (MessageOrder (added cv ts m)) = dom (Messages (added cv ts m)) \<and>
         distinct (MessageOrder (added cv ts m))"
proof (cases "Messages cv ts")
  case None
  then have "ts \<notin> dom (Messages cv)" by (simp add: domIff)
  with assms None show ?thesis by (simp add: added_def)
next
  case (Some p)
  then have "ts \<in> dom (Messages cv)" by (simp add: domIff)
  then have "insert ts (dom (Messages cv)) = dom (Messages cv)" by auto
  with assms Some show ?thesis by (simp add: added_def)
qed

lemma wf_onReceived_known_conversation:
  assumes wf: "wf_world w" and cv: "load (conv_heap (mem w)) conv = Some cv"
    and al: "\<forall>ts m. Messages cv ts = Some m \<longrightarrow> load (msg_heap (mem w)) m \<noteq> None"
    and inv: "set (MessageOrder cv) = dom (Messages cv)" "distinct (MessageOrder cv)"
  shows "wf_world
       (w\<lparr>mem := (mem w)\<lparr>
             conv_heap := store (conv_heap (mem w)) conv
               (added cv ts (Ptr (length (msg_heap (mem w))))),
             msg_heap := msg_heap (mem w) @ [mv]\<rparr>,
         events := ev\<rparr>)"
  unfolding wf_world_def
proof (intro conjI allI impI, goal_cases)
  case (1 n' c')
  with wf_contactD [OF wf, of n' c'] show ?case
    by auto
next
  case (2 c' conv')
  with wf_conversation_keyD [OF wf, of c' conv'] show ?case
    by auto
next
  case (3 c' conv')
  then have old: "conversations (siggo w) c' = Some conv'" by simp
  from wf_conversationD [OF wf old] obtain cv' where
    cv': "load (conv_heap (mem w)) conv' = Some cv'"
    and al': "\<forall>ts m. Messages cv' ts = Some m \<longrightarrow> load (msg_heap (mem w)) m \<noteq> None"
    and inv': "set (MessageOrder cv') = dom (Messages cv')" "distinct (MessageOrder cv')"
    by blast
  show ?case
  proof (cases "conv' = conv")
    case True
    have "\<forall>ts' m. Messages (added cv ts (Ptr (length (msg_heap (mem w))))) ts' = Some m \<longrightarrow>
            load (msg_heap (mem w) @ [mv]) m \<noteq> None"
      using al by (auto simp: added_def load_snoc)
    with True cv added_invariant [OF inv, of ts "Ptr (length (msg_heap (mem w)))"] show ?thesis
      by (simp add: load_store)
  next
    case False
    with cv' al' inv' show ?thesis
      by (auto simp: load_store load_snoc)
  qed
qed

lemma wf_onReceived:
  assumes wf: "wf_world w" and run: "onReceived w msg = Inr (e, w')"
  shows "wf_world w'"
proof (cases "contacts (siggo w) (Source (Envelope msg))")
  case None
  from run show ?thesis
    unfolding onReceived_unknown_sender [OF wf None]
    using wf_onReceived_unknown [OF wf] by auto
next
  case (Some c)
  from wf_contactD [OF wf Some] obtain cc where cc: "load (contact_heap (mem w)) c = Some cc"
    by blast
  show ?thesis
  proof (cases "conversations (siggo w) c")
    case None
    from run show ?thesis
      unfolding onReceived_new_conversation [OF Some cc None]
      using wf_onReceived_new_conversation [OF wf cc] by auto
  next
    case (Some conv)
    from wf_conversationD [OF wf Some] obtain cv where
      cv: "load (conv_heap (mem w)) conv = Some cv"
      and al: "\<forall>ts m. Messages cv ts = Some m \<longrightarrow> load (msg_heap (mem w)) m \<noteq> None"
      and inv: "set (MessageOrder cv) = dom (Messages cv)" "distinct (MessageOrder cv)"
      by blast
    from run show ?thesis
      unfolding onReceived_known_conversation [OF \<open>contacts (siggo w) (Source (Envelope msg)) = Some c\<close> cc Some cv]
      using wf_onReceived_known_conversation [OF wf cv al inv] by auto
  qed
qed

lemma received_event_fields:
  "Source (Envelope received_event) = ''+1555''"
  "dmMessage (DataMessage (Envelope received_event)) = ''hi''"
  "dmTimestamp (DataMessage (Envelope received_event)) = 100"
  by (simp_all add: received_event_def event_from_def)

lemma world0_unknown_sender: "contacts (siggo world0) (Source (Envelope received_event)) = None"
  by (simp add: world0_eval received_event_fields)

lemma onReceived_world0: "onReceived world0 received_event = Inr (None, world1)"
  by (simp add: world1_def onReceived_unknown_sender [OF wf_world0 world0_unknown_sender])

lemma world1_eval:
  "world1 =
     \<lparr>siggo = \<lparr>config = example_config,
               contacts = [''+1000'' \<mapsto> Ptr 0, ''+1555'' \<mapsto> Ptr 1],
               conversations = [Ptr 0 \<mapsto> Ptr 0, Ptr 1 \<mapsto> Ptr 1]\<rparr>,
      mem = \<lparr>contact_heap = [\<lparr>Number = ''+1000'', Name = ''me''\<rparr>,
                             \<lparr>Number = ''+1555'', Name = []\<rparr>],
             conv_heap = [empty_conversation (Ptr 0),
                          \<lparr>Contact = Ptr 1, Messages = [100 \<mapsto> Ptr 0], MessageOrder = [100],
                           HasNewMessage = True\<rparr>],
             msg_heap = [example_msg]\<rparr>,
      events = [OnReceivedRegistered, OnReceiptRegistered, NewInfo (Ptr 1)]\<rparr>"
  unfolding world1_def onReceived_unknown_sender [OF wf_world0 world0_unknown_sender]
  by (simp add: world0_eval received_event_fields received_message_def display_name_def
        added_def empty_conversation_def example_msg_def)

lemma wf_world1: "wf_world world1"
  using wf_world0 onReceived_world0 by (rule wf_onReceived)

text \<open>
  C5. In a well-formed state, a received-message event whose sender identifier is not a
  key of the contact registry makes \<open>onReceived\<close> return with the contact registry
  extended by exactly that identifier, mapped to a new contact object with that number
  and the empty name, and with the conversation registry extended by exactly that
  contact, mapped to a new conversation object that belongs to it. The contact was no
  key of the conversation registry before, one contact object and one conversation
  object are new, and every older object of either kind is still there.
\<close>

theorem onReceived_unknown_sender_registers:
  assumes "wf_world w" and "contacts (siggo w) (Source (Envelope msg)) = None"
  shows "\<exists>w' cv.
     onReceived w msg = Inr (None, w') \<and>
     contacts (siggo w') =
       (contacts (siggo w))(Source (Envelope msg) \<mapsto> Ptr (length (contact_heap (mem w)))) \<and>
     load (contact_heap (mem w)) (Ptr (length (contact_heap (mem w)))) = None \<and>
     load (contact_heap (mem w')) (Ptr (length (contact_heap (mem w)))) =
       Some \<lparr>Number = Source (Envelope msg), Name = []\<rparr> \<and>
     length (contact_heap (mem w')) = Suc (length (contact_heap (mem w))) \<and>
     (\<forall>p x. load (contact_heap (mem w)) p = Some x \<longrightarrow> load (contact_heap (mem w')) p = Some x) \<and>
     conversations (siggo w) (Ptr (length (contact_heap (mem w)))) = None \<and>
     conversations (siggo w') =
       (conversations (siggo w))
         (Ptr (length (contact_heap (mem w))) \<mapsto> Ptr (length (conv_heap (mem w)))) \<and>
     load (conv_heap (mem w)) (Ptr (length (conv_heap (mem w)))) = None \<and>
     load (conv_heap (mem w')) (Ptr (length (conv_heap (mem w)))) = Some cv \<and>
     Contact cv = Ptr (length (contact_heap (mem w))) \<and>
     length (conv_heap (mem w')) = Suc (length (conv_heap (mem w))) \<and>
     (\<forall>p x. load (conv_heap (mem w)) p = Some x \<longrightarrow> load (conv_heap (mem w')) p = Some x)"
  unfolding onReceived_unknown_sender [OF assms]
  using wf_fresh_contact_no_conversation [OF assms(1)]
  by (auto simp: load_snoc added_def empty_conversation_def)

theorem onReceived_unknown_sender_registers_witness:
  "wf_world world0 \<and> contacts (siggo world0) ''+1555'' = None \<and>
   (\<exists>w'. onReceived world0 received_event = Inr (None, w') \<and>
      contacts (siggo w') = [''+1000'' \<mapsto> Ptr 0, ''+1555'' \<mapsto> Ptr 1] \<and>
      conversations (siggo w') = [Ptr 0 \<mapsto> Ptr 0, Ptr 1 \<mapsto> Ptr 1] \<and>
      load (contact_heap (mem w')) (Ptr 1) = Some \<lparr>Number = ''+1555'', Name = []\<rparr>)"
proof -
  from onReceived_unknown_sender_registers [OF wf_world0 world0_unknown_sender]
  obtain w' where "onReceived world0 received_event = Inr (None, w')"
    "contacts (siggo w') =
       (contacts (siggo world0))(Source (Envelope received_event) \<mapsto>
          Ptr (length (contact_heap (mem world0))))"
    "load (contact_heap (mem w')) (Ptr (length (contact_heap (mem world0)))) =
       Some \<lparr>Number = Source (Envelope received_event), Name = []\<rparr>"
    "conversations (siggo w') =
       (conversations (siggo world0))
         (Ptr (length (contact_heap (mem world0))) \<mapsto> Ptr (length (conv_heap (mem world0))))"
    by blast
  then have "onReceived world0 received_event = Inr (None, w') \<and>
      contacts (siggo w') = [''+1000'' \<mapsto> Ptr 0, ''+1555'' \<mapsto> Ptr 1] \<and>
      conversations (siggo w') = [Ptr 0 \<mapsto> Ptr 0, Ptr 1 \<mapsto> Ptr 1] \<and>
      load (contact_heap (mem w')) (Ptr 1) = Some \<lparr>Number = ''+1555'', Name = []\<rparr>"
    by (simp add: world0_eval received_event_fields)
  then show ?thesis
    using wf_world0 world0_unknown_sender received_event_fields by auto
qed

text \<open>
  C6. In a well-formed state, \<open>onReceived\<close> returns no error for every event. It
  allocates a new message with the event's text as content, the event's timestamp,
  \<open>IsDelivered = True\<close>, \<open>IsRead = False\<close> and, as \<open>From\<close>, the contact's name if it has a
  non-empty one and the raw sender identifier otherwise. The final store is the result of
  \<open>AddMessage\<close> with that message on the conversation the registries resolve the sender
  to (the one they held, or a new empty one), which then stores the message under its
  timestamp; and the one event added to the run is the call of \<^verbatim>\<open>NewInfo\<close> with that
  conversation.
\<close>

theorem onReceived_adds_message:
  assumes wf: "wf_world w"
  shows "\<exists>w' c conv cv' h.
     onReceived w msg = Inr (None, w') \<and>
     contacts (siggo w') (Source (Envelope msg)) = Some c \<and>
     conversations (siggo w') c = Some conv \<and>
     load (msg_heap (mem w)) (Ptr (length (msg_heap (mem w)))) = None \<and>
     load (msg_heap (mem w')) (Ptr (length (msg_heap (mem w)))) =
       Some \<lparr>Content = dmMessage (DataMessage (Envelope msg)),
             From = display_name w (Source (Envelope msg)),
             Timestamp = dmTimestamp (DataMessage (Envelope msg)),
             IsDelivered = True, IsRead = False\<rparr> \<and>
     load (conv_heap h) conv =
       Some (case resolved_conversation w (Source (Envelope msg)) of
               None \<Rightarrow> empty_conversation c | Some cv \<Rightarrow> cv) \<and>
     AddMessage h conv (Ptr (length (msg_heap (mem w)))) = Inr (mem w') \<and>
     load (conv_heap (mem w')) conv = Some cv' \<and>
     Messages cv' (dmTimestamp (DataMessage (Envelope msg))) = Some (Ptr (length (msg_heap (mem w)))) \<and>
     events w' = events w @ [NewInfo conv]"
proof -
  let ?n = "Source (Envelope msg)"
  let ?ts = "dmTimestamp (DataMessage (Envelope msg))"
  let ?m = "Ptr (length (msg_heap (mem w)))"
  have fresh: "load (msg_heap (mem w)) ?m = None" by simp
  have rm: "received_message w msg =
       \<lparr>Content = dmMessage (DataMessage (Envelope msg)),
             From = display_name w (Source (Envelope msg)),
             Timestamp = dmTimestamp (DataMessage (Envelope msg)),
             IsDelivered = True, IsRead = False\<rparr>"
    by (simp add: received_message_def)
  have ts: "Timestamp (received_message w msg) = ?ts"
    by (simp add: received_message_def)
  have added_key: "Messages (added cv ?ts ?m) ?ts = Some ?m" for cv
    by (simp add: added_def)
  show ?thesis
  proof (cases "contacts (siggo w) ?n")
    case None
    let ?c = "Ptr (length (contact_heap (mem w)))"
    let ?conv = "Ptr (length (conv_heap (mem w)))"
    define h where "h =
       \<lparr>contact_heap = contact_heap (mem w) @ [\<lparr>Number = ?n, Name = []\<rparr>],
        conv_heap = conv_heap (mem w) @ [empty_conversation ?c],
        msg_heap = msg_heap (mem w) @ [received_message w msg]\<rparr>"
    define w' where "w' =
       \<lparr>siggo = (siggo w)\<lparr>
           contacts := (contacts (siggo w))(?n \<mapsto> ?c),
           conversations := (conversations (siggo w))(?c \<mapsto> ?conv)\<rparr>,
        mem = \<lparr>contact_heap = contact_heap (mem w) @ [\<lparr>Number = ?n, Name = []\<rparr>],
               conv_heap = conv_heap (mem w) @ [added (empty_conversation ?c) ?ts ?m],
               msg_heap = msg_heap (mem w) @ [received_message w msg]\<rparr>,
        events = events w @ [NewInfo ?conv]\<rparr>"
    have run: "onReceived w msg = Inr (None, w')"
      unfolding w'_def by (rule onReceived_unknown_sender [OF wf None])
    have c: "load (conv_heap h) ?conv = Some (empty_conversation ?c)"
      by (simp add: h_def load_snoc)
    have m: "load (msg_heap h) ?m = Some (received_message w msg)"
      by (simp add: h_def load_snoc)
    have add: "AddMessage h ?conv ?m = Inr (mem w')"
      unfolding AddMessage_eval [OF c m] ts
      by (simp add: h_def w'_def added_def empty_conversation_def)
    have rc: "resolved_conversation w ?n = None"
      using None by (simp add: resolved_conversation_def)
    have c0: "load (conv_heap h) ?conv =
       Some (case resolved_conversation w ?n of None \<Rightarrow> empty_conversation ?c | Some cv \<Rightarrow> cv)"
      using c rc by simp
    have f1: "contacts (siggo w') ?n = Some ?c" by (simp add: w'_def)
    have f2: "conversations (siggo w') ?c = Some ?conv" by (simp add: w'_def)
    have f3: "load (msg_heap (mem w')) ?m = Some (received_message w msg)"
      by (simp add: w'_def load_snoc)
    have f4: "load (conv_heap (mem w')) ?conv = Some (added (empty_conversation ?c) ?ts ?m)"
      by (simp add: w'_def load_snoc)
    have f6: "events w' = events w @ [NewInfo ?conv]" by (simp add: w'_def)
    from run f1 f2 fresh f3 c0 add f4 added_key f6 show ?thesis
      unfolding rm by blast
  next
    case (Some c)
    from wf_contactD [OF wf Some] obtain cc where cc: "load (contact_heap (mem w)) c = Some cc"
      by blast
    show ?thesis
    proof (cases "conversations (siggo w) c")
      case None
      let ?conv = "Ptr (length (conv_heap (mem w)))"
      define h where "h = (mem w)\<lparr>conv_heap := conv_heap (mem w) @ [empty_conversation c],
                       msg_heap := msg_heap (mem w) @ [received_message w msg]\<rparr>"
      define w' where "w' =
         w\<lparr>siggo := (siggo w)\<lparr>conversations := (conversations (siggo w))(c \<mapsto> ?conv)\<rparr>,
           mem := (mem w)\<lparr>
             conv_heap := conv_heap (mem w) @ [added (empty_conversation c) ?ts ?m],
             msg_heap := msg_heap (mem w) @ [received_message w msg]\<rparr>,
           events := events w @ [NewInfo ?conv]\<rparr>"
      have run: "onReceived w msg = Inr (None, w')"
        unfolding w'_def by (rule onReceived_new_conversation [OF Some cc None])
      have c: "load (conv_heap h) ?conv = Some (empty_conversation c)"
        by (simp add: h_def load_snoc)
      have m: "load (msg_heap h) ?m = Some (received_message w msg)"
        by (simp add: h_def load_snoc)
      have add: "AddMessage h ?conv ?m = Inr (mem w')"
        unfolding AddMessage_eval [OF c m] ts
        by (simp add: h_def w'_def added_def empty_conversation_def)
      have rc: "resolved_conversation w ?n = None"
        using Some None by (simp add: resolved_conversation_def)
      have c0: "load (conv_heap h) ?conv =
         Some (case resolved_conversation w ?n of None \<Rightarrow> empty_conversation c | Some cv \<Rightarrow> cv)"
        using c rc by simp
      have f1: "contacts (siggo w') ?n = Some c" using Some by (simp add: w'_def)
      have f2: "conversations (siggo w') c = Some ?conv" by (simp add: w'_def)
      have f3: "load (msg_heap (mem w')) ?m = Some (received_message w msg)"
        by (simp add: w'_def load_snoc)
      have f4: "load (conv_heap (mem w')) ?conv = Some (added (empty_conversation c) ?ts ?m)"
        by (simp add: w'_def load_snoc)
      have f6: "events w' = events w @ [NewInfo ?conv]" by (simp add: w'_def)
      from run f1 f2 fresh f3 c0 add f4 added_key f6 show ?thesis
        unfolding rm by blast
    next
      case (Some conv)
      note co = \<open>contacts (siggo w) ?n = Some c\<close>
      from wf_conversationD [OF wf Some] obtain cv where
        cv: "load (conv_heap (mem w)) conv = Some cv"
        by blast
      define h where "h = (mem w)\<lparr>msg_heap := msg_heap (mem w) @ [received_message w msg]\<rparr>"
      define w' where "w' =
         w\<lparr>mem := (mem w)\<lparr>
             conv_heap := store (conv_heap (mem w)) conv (added cv ?ts ?m),
             msg_heap := msg_heap (mem w) @ [received_message w msg]\<rparr>,
           events := events w @ [NewInfo conv]\<rparr>"
      have run: "onReceived w msg = Inr (None, w')"
        unfolding w'_def by (rule onReceived_known_conversation [OF co cc Some cv])
      have c: "load (conv_heap h) conv = Some cv"
        using cv by (simp add: h_def)
      have m: "load (msg_heap h) ?m = Some (received_message w msg)"
        by (simp add: h_def load_snoc)
      have add: "AddMessage h conv ?m = Inr (mem w')"
        unfolding AddMessage_eval [OF c m] ts
        by (simp add: h_def w'_def added_def)
      have rc: "resolved_conversation w ?n = Some cv"
        using co Some cv by (simp add: resolved_conversation_def)
      have c0: "load (conv_heap h) conv =
         Some (case resolved_conversation w ?n of None \<Rightarrow> empty_conversation c | Some cv \<Rightarrow> cv)"
        using c rc by simp
      have f1: "contacts (siggo w') ?n = Some c" using co by (simp add: w'_def)
      have f2: "conversations (siggo w') c = Some conv" using Some by (simp add: w'_def)
      have f3: "load (msg_heap (mem w')) ?m = Some (received_message w msg)"
        by (simp add: w'_def load_snoc)
      have f4: "load (conv_heap (mem w')) conv = Some (added cv ?ts ?m)"
        using cv by (simp add: w'_def load_store)
      have f6: "events w' = events w @ [NewInfo conv]" by (simp add: w'_def)
      from run f1 f2 fresh f3 c0 add f4 added_key f6 show ?thesis
        unfolding rm by blast
    qed
  qed
qed

theorem onReceived_adds_message_witness:
  "wf_world world0 \<and>
   (\<exists>w' conv cv'. onReceived world0 received_event = Inr (None, w') \<and>
      load (msg_heap (mem w')) (Ptr 0) = Some example_msg \<and>
      load (conv_heap (mem w')) conv = Some cv' \<and> Messages cv' 100 = Some (Ptr 0) \<and>
      events w' = events world0 @ [NewInfo conv])"
proof -
  have dn: "display_name world0 ''+1555'' = ''+1555''"
    by (simp add: display_name_def world0_eval)
  from onReceived_adds_message [OF wf_world0, of received_event]
  obtain w' conv cv' where "onReceived world0 received_event = Inr (None, w')"
    "load (msg_heap (mem w')) (Ptr (length (msg_heap (mem world0)))) =
       Some \<lparr>Content = dmMessage (DataMessage (Envelope received_event)),
             From = display_name world0 (Source (Envelope received_event)),
             Timestamp = dmTimestamp (DataMessage (Envelope received_event)),
             IsDelivered = True, IsRead = False\<rparr>"
    "load (conv_heap (mem w')) conv = Some cv'"
    "Messages cv' (dmTimestamp (DataMessage (Envelope received_event))) =
       Some (Ptr (length (msg_heap (mem world0))))"
    "events w' = events world0 @ [NewInfo conv]"
    by blast
  then have "onReceived world0 received_event = Inr (None, w') \<and>
      load (msg_heap (mem w')) (Ptr 0) = Some example_msg \<and>
      load (conv_heap (mem w')) conv = Some cv' \<and> Messages cv' 100 = Some (Ptr 0) \<and>
      events w' = events world0 @ [NewInfo conv]"
    by (simp add: received_event_fields dn example_msg_def) (simp add: world0_eval)
  then show ?thesis
    using wf_world0 by blast
qed

subsection \<open>onReceipt\<close>

lemma receipt_loop_result:
  assumes "load (conv_heap h) conv = Some cv"
    and "\<forall>ts m. Messages cv ts = Some m \<longrightarrow> load (msg_heap h) m \<noteq> None"
  shows "\<exists>h'. receipt_loop h conv r tss = Inr h' \<and>
           conv_heap h' = conv_heap h \<and> contact_heap h' = contact_heap h \<and>
           length (msg_heap h') = length (msg_heap h) \<and>
           (\<forall>m mv. load (msg_heap h) m = Some mv \<longrightarrow>
              load (msg_heap h') m =
                Some (if \<exists>ts \<in> set tss. Messages cv ts = Some m
                      then receipt_flags r mv else mv))"
  using assms
proof (induction tss arbitrary: h)
  case Nil
  then show ?case by simp
next
  case (Cons ts tss)
  show ?case
  proof (cases "Messages cv ts")
    case None
    from Cons.IH [OF Cons.prems] obtain h' where
      "receipt_loop h conv r tss = Inr h'" "conv_heap h' = conv_heap h"
      "contact_heap h' = contact_heap h" "length (msg_heap h') = length (msg_heap h)"
      "\<forall>m mv. load (msg_heap h) m = Some mv \<longrightarrow>
              load (msg_heap h') m =
                Some (if \<exists>ts \<in> set tss. Messages cv ts = Some m
                      then receipt_flags r mv else mv)"
      by blast
    with None Cons.prems(1) show ?thesis
      by (intro exI [of _ h']) auto
  next
    case (Some m0)
    with Cons.prems(2) obtain mv0 where m0: "load (msg_heap h) m0 = Some mv0"
      by fastforce
    define h1 where "h1 = h\<lparr>msg_heap := store (msg_heap h) m0 (receipt_flags r mv0)\<rparr>"
    have c1: "load (conv_heap h1) conv = Some cv"
      using Cons.prems(1) by (simp add: h1_def)
    have a1: "\<forall>ts m. Messages cv ts = Some m \<longrightarrow> load (msg_heap h1) m \<noteq> None"
      using Cons.prems(2) by (simp add: h1_def load_None_iff)
    from Cons.IH [OF c1 a1] obtain h' where
      run: "receipt_loop h1 conv r tss = Inr h'" and ch: "conv_heap h' = conv_heap h1"
      and cth: "contact_heap h' = contact_heap h1"
      and len: "length (msg_heap h') = length (msg_heap h1)"
      and msgs: "\<forall>m mv. load (msg_heap h1) m = Some mv \<longrightarrow>
              load (msg_heap h') m =
                Some (if \<exists>ts \<in> set tss. Messages cv ts = Some m
                      then receipt_flags r mv else mv)"
      by blast
    have step: "receipt_loop h conv r (ts # tss) = Inr h'"
      using Cons.prems(1) Some m0 run by (simp add: h1_def receipt_flags_def)
    have "load (msg_heap h') m =
            Some (if \<exists>ts' \<in> set (ts # tss). Messages cv ts' = Some m
                  then receipt_flags r mv else mv)"
      if "load (msg_heap h) m = Some mv" for m mv
    proof (cases "m = m0")
      case True
      with that m0 have "mv = mv0" by simp
      have "load (msg_heap h1) m0 = Some (receipt_flags r mv0)"
        using m0 by (simp add: h1_def load_store)
      with msgs have "load (msg_heap h') m0 =
          Some (if \<exists>ts \<in> set tss. Messages cv ts = Some m0
                then receipt_flags r (receipt_flags r mv0) else receipt_flags r mv0)"
        by blast
      with True \<open>mv = mv0\<close> Some show ?thesis
        by (auto simp: receipt_flags_def)
    next
      case False
      with that have "load (msg_heap h1) m = Some mv"
        by (simp add: h1_def load_store)
      with msgs have "load (msg_heap h') m =
          Some (if \<exists>ts \<in> set tss. Messages cv ts = Some m then receipt_flags r mv else mv)"
        by blast
      with False Some show ?thesis by auto
    qed
    with step ch cth len show ?thesis
      by (intro exI [of _ h']) (simp add: h1_def)
  qed
qed

lemma onReceipt_alt:
  "onReceipt w msg =
     (case receipt_target w (Source (Envelope msg)) of
        (conv, w2) \<Rightarrow>
          (case receipt_loop (mem w2) conv (ReceiptMessage (Envelope msg))
                  (Timestamps (ReceiptMessage (Envelope msg))) of
             Inl e \<Rightarrow> Inl e
           | Inr h \<Rightarrow> Inr (None, w2\<lparr>mem := h\<rparr>)))"
  by (simp add: onReceipt_def receipt_target_def Let_def split: prod.splits option.splits)

lemma receipt_target_props:
  assumes wf: "wf_world w" and rt: "receipt_target w n = (conv, w2)"
  shows "wf_world w2 \<and> events w2 = events w \<and> msg_heap (mem w2) = msg_heap (mem w) \<and>
     (\<forall>p cv. load (conv_heap (mem w)) p = Some cv \<longrightarrow> load (conv_heap (mem w2)) p = Some cv) \<and>
     (\<exists>c cv. contacts (siggo w2) n = Some c \<and> conversations (siggo w2) c = Some conv \<and>
        load (conv_heap (mem w2)) conv = Some cv \<and>
        (\<forall>ts. Messages cv ts = stored_message w n ts) \<and>
        (\<forall>cv0. resolved_conversation w n = Some cv0 \<longrightarrow> cv = cv0))"
proof (cases "contacts (siggo w) n")
  case None
  let ?c = "Ptr (length (contact_heap (mem w)))"
  let ?w1 = "snd (newContact w n)"
  have wf1: "wf_world ?w1" using wf by (rule wf_newContact)
  have nc: "conversations (siggo ?w1) ?c = None"
    using wf_fresh_contact_no_conversation [OF wf] by (simp add: newContact_eval)
  have al: "load (contact_heap (mem ?w1)) ?c \<noteq> None"
    by (simp add: newContact_eval load_snoc)
  have rt': "receipt_target w n = newConversation ?w1 ?c"
    using None nc by (simp add: receipt_target_def newContact_eval Let_def)
  have wf2: "wf_world (snd (newConversation ?w1 ?c))"
    using wf1 al by (rule wf_newConversation)
  from rt rt' have w2: "w2 = snd (newConversation ?w1 ?c)"
    and conv: "conv = fst (newConversation ?w1 ?c)" by simp_all
  show ?thesis
    using wf2 None unfolding w2 conv
    by (simp add: newConversation_eval newContact_eval load_snoc
          stored_message_def resolved_conversation_def)
next
  case (Some c)
  with wf_contactD [OF wf] have al: "load (contact_heap (mem w)) c \<noteq> None"
    by fastforce
  show ?thesis
  proof (cases "conversations (siggo w) c")
    case None
    have rt': "receipt_target w n = newConversation w c"
      using Some None by (simp add: receipt_target_def Let_def)
    have wf2: "wf_world (snd (newConversation w c))"
      using wf al by (rule wf_newConversation)
    from rt rt' have w2: "w2 = snd (newConversation w c)"
      and conv: "conv = fst (newConversation w c)" by simp_all
    show ?thesis
      using wf2 Some None unfolding w2 conv
      by (simp add: newConversation_eval load_snoc
            stored_message_def resolved_conversation_def)
  next
    case (Some conv')
    with \<open>contacts (siggo w) n = Some c\<close> rt have eq: "conv = conv'" "w2 = w"
      by (simp_all add: receipt_target_def Let_def)
    from wf_conversationD [OF wf Some] obtain cv where "load (conv_heap (mem w)) conv' = Some cv"
      by blast
    with wf Some \<open>contacts (siggo w) n = Some c\<close> show ?thesis
      unfolding eq
      by (simp add: stored_message_def resolved_conversation_def)
  qed
qed

lemma onReceipt_result:
  assumes wf: "wf_world w"
  shows "\<exists>w'. onReceipt w msg = Inr (None, w') \<and> wf_world w' \<and>
     events w' = events w \<and>
     length (msg_heap (mem w')) = length (msg_heap (mem w)) \<and>
     (\<forall>p cv. load (conv_heap (mem w)) p = Some cv \<longrightarrow> load (conv_heap (mem w')) p = Some cv) \<and>
     (\<forall>m mv. load (msg_heap (mem w)) m = Some mv \<longrightarrow>
        load (msg_heap (mem w')) m =
          Some (if \<exists>ts \<in> set (Timestamps (ReceiptMessage (Envelope msg))).
                     stored_message w (Source (Envelope msg)) ts = Some m
                then receipt_flags (ReceiptMessage (Envelope msg)) mv else mv)) \<and>
     (\<forall>cv0. resolved_conversation w (Source (Envelope msg)) = Some cv0 \<longrightarrow>
        resolved_conversation w' (Source (Envelope msg)) = Some cv0) \<and>
     (\<forall>ts. stored_message w' (Source (Envelope msg)) ts =
           stored_message w (Source (Envelope msg)) ts)"
proof -
  let ?n = "Source (Envelope msg)"
  let ?r = "ReceiptMessage (Envelope msg)"
  obtain conv w2 where rt: "receipt_target w ?n = (conv, w2)"
    by (cases "receipt_target w ?n")
  from receipt_target_props [OF wf rt] obtain c cv where
    wf2: "wf_world w2" and ev: "events w2 = events w"
    and mh: "msg_heap (mem w2) = msg_heap (mem w)"
    and convs: "\<forall>p cv. load (conv_heap (mem w)) p = Some cv \<longrightarrow> load (conv_heap (mem w2)) p = Some cv"
    and c: "contacts (siggo w2) ?n = Some c" and cc: "conversations (siggo w2) c = Some conv"
    and cv: "load (conv_heap (mem w2)) conv = Some cv"
    and st: "\<forall>ts. Messages cv ts = stored_message w ?n ts"
    and old: "\<forall>cv0. resolved_conversation w ?n = Some cv0 \<longrightarrow> cv = cv0"
    by blast
  from wf_conversationD [OF wf2 cc] cv
  have al: "\<forall>ts m. Messages cv ts = Some m \<longrightarrow> load (msg_heap (mem w2)) m \<noteq> None"
    by simp
  from receipt_loop_result [OF cv al, of ?r "Timestamps ?r"] obtain h' where
    run: "receipt_loop (mem w2) conv ?r (Timestamps ?r) = Inr h'"
    and ch: "conv_heap h' = conv_heap (mem w2)" and cth: "contact_heap h' = contact_heap (mem w2)"
    and len: "length (msg_heap h') = length (msg_heap (mem w2))"
    and msgs: "\<forall>m mv. load (msg_heap (mem w2)) m = Some mv \<longrightarrow>
              load (msg_heap h') m =
                Some (if \<exists>ts \<in> set (Timestamps ?r). Messages cv ts = Some m
                      then receipt_flags ?r mv else mv)"
    by blast
  let ?w' = "w2\<lparr>mem := h'\<rparr>"
  have res: "onReceipt w msg = Inr (None, ?w')"
    by (simp add: onReceipt_alt rt run)
  have wf': "wf_world ?w'"
    using wf2 ch cth len by (rule wf_world_mem_update)
  have rc': "resolved_conversation ?w' ?n = Some cv"
    using c cc cv ch by (simp add: resolved_conversation_def)
  have "stored_message ?w' ?n ts = stored_message w ?n ts" for ts
    using rc' st by (simp add: stored_message_def)
  moreover have "resolved_conversation ?w' ?n = Some cv0"
    if "resolved_conversation w ?n = Some cv0" for cv0
    using rc' old that by simp
  moreover have "load (conv_heap (mem ?w')) p = Some x" if "load (conv_heap (mem w)) p = Some x" for p x
    using convs that ch by simp
  moreover have "load (msg_heap (mem ?w')) m =
          Some (if \<exists>ts \<in> set (Timestamps ?r). stored_message w ?n ts = Some m
                then receipt_flags ?r mv else mv)"
    if "load (msg_heap (mem w)) m = Some mv" for m mv
    using msgs that mh st by simp
  ultimately show ?thesis
    using res wf' ev len mh by (intro exI [of _ ?w']) simp
qed

lemma wf_onReceipt:
  assumes "wf_world w" and "onReceipt w msg = Inr (e, w')"
  shows "wf_world w'"
  using onReceipt_result [OF assms(1), of msg] assms(2) by auto

lemma receipt_loop_flags_only:
  "receipt_loop h conv (r\<lparr>Timestamps := x\<rparr>) tss = receipt_loop h conv r tss"
  by (induction tss arbitrary: h) (auto split: option.splits)

lemma receipt_loop_removeAll:
  assumes "load (conv_heap h) conv = Some cv" and "Messages cv ts = None"
  shows "receipt_loop h conv r (removeAll ts tss) = receipt_loop h conv r tss"
  using assms(1)
proof (induction tss arbitrary: h)
  case Nil
  then show ?case by simp
next
  case (Cons t tss)
  show ?case
  proof (cases "t = ts")
    case True
    with Cons assms(2) show ?thesis by simp
  next
    case False
    show ?thesis
    proof (cases "Messages cv t")
      case None
      with False Cons show ?thesis by simp
    next
      case (Some m)
      show ?thesis
      proof (cases "load (msg_heap h) m")
        case None
        with False Some Cons.prems show ?thesis by simp
      next
        case (Some mv)
        let ?h1 = "h\<lparr>msg_heap := store (msg_heap h) m
                      (mv\<lparr>IsDelivered := IsDelivery r, IsRead := rmIsRead r\<rparr>)\<rparr>"
        have "load (conv_heap ?h1) conv = Some cv"
          using Cons.prems by simp
        from Cons.IH [OF this] False \<open>Messages cv t = Some m\<close> Some Cons.prems
        show ?thesis by simp
      qed
    qed
  qed
qed

lemma onReceipt_without_absent:
  assumes wf: "wf_world w" and absent: "stored_message w (Source (Envelope msg)) ts = None"
  shows "onReceipt w (without_timestamp msg ts) = onReceipt w msg"
proof -
  let ?n = "Source (Envelope msg)"
  obtain conv w2 where rt: "receipt_target w ?n = (conv, w2)"
    by (cases "receipt_target w ?n")
  from receipt_target_props [OF wf rt] obtain cv where
    cv: "load (conv_heap (mem w2)) conv = Some cv"
    and st: "\<forall>ts. Messages cv ts = stored_message w ?n ts"
    by blast
  from st absent have "Messages cv ts = None" by simp
  from receipt_loop_removeAll [OF cv this] show ?thesis
    by (simp add: onReceipt_alt without_timestamp_def rt receipt_loop_flags_only)
qed

lemma world1_stored_100: "stored_message world1 ''+1555'' 100 = Some (Ptr 0)"
  by (simp add: world1_eval stored_message_def resolved_conversation_def load_def)

lemma world1_stored_999: "stored_message world1 ''+1555'' 999 = None"
  by (simp add: world1_eval stored_message_def resolved_conversation_def load_def)

lemma world1_msg: "load (msg_heap (mem world1)) (Ptr 0) = Some example_msg"
  by (simp add: world1_eval load_def)



lemma receipt_fields:
  "Source (Envelope read_receipt) = ''+1555''"
  "Timestamps (ReceiptMessage (Envelope read_receipt)) = [100]"
  "Source (Envelope negative_receipt) = ''+1555''"
  "Timestamps (ReceiptMessage (Envelope negative_receipt)) = [100]"
  "IsDelivery (ReceiptMessage (Envelope negative_receipt)) = False"
  "rmIsRead (ReceiptMessage (Envelope negative_receipt)) = False"
  "Source (Envelope unknown_receipt) = ''+1555''"
  "Timestamps (ReceiptMessage (Envelope unknown_receipt)) = [999]"
  by (simp_all add: read_receipt_def negative_receipt_def unknown_receipt_def event_from_def)




text \<open>
  C4. In a well-formed state, a timestamp that the sender's conversation does not store
  (also when the sender has no conversation yet) is skipped: \<open>onReceipt\<close> returns no
  error, with the very state it returns for the receipt without that timestamp; the
  timestamp is still absent afterwards, the sender's conversation and every other
  conversation object are unchanged, and when no timestamp of the receipt is stored no
  message changes either.
\<close>

theorem onReceipt_skips_absent_timestamp:
  assumes "wf_world w" and "stored_message w (Source (Envelope msg)) ts = None"
  shows "\<exists>w'. onReceipt w msg = Inr (None, w') \<and>
     onReceipt w (without_timestamp msg ts) = Inr (None, w') \<and>
     stored_message w' (Source (Envelope msg)) ts = None \<and>
     (\<forall>cv. resolved_conversation w (Source (Envelope msg)) = Some cv \<longrightarrow>
        resolved_conversation w' (Source (Envelope msg)) = Some cv) \<and>
     (\<forall>p cv. load (conv_heap (mem w)) p = Some cv \<longrightarrow> load (conv_heap (mem w')) p = Some cv) \<and>
     ((\<forall>t \<in> set (Timestamps (ReceiptMessage (Envelope msg))).
          stored_message w (Source (Envelope msg)) t = None) \<longrightarrow>
        msg_heap (mem w') = msg_heap (mem w))"
proof -
  from onReceipt_result [OF assms(1), of msg] obtain w' where
    run: "onReceipt w msg = Inr (None, w')"
    and len: "length (msg_heap (mem w')) = length (msg_heap (mem w))"
    and convs: "\<forall>p cv. load (conv_heap (mem w)) p = Some cv \<longrightarrow> load (conv_heap (mem w')) p = Some cv"
    and msgs: "\<forall>m mv. load (msg_heap (mem w)) m = Some mv \<longrightarrow>
        load (msg_heap (mem w')) m =
          Some (if \<exists>ts \<in> set (Timestamps (ReceiptMessage (Envelope msg))).
                     stored_message w (Source (Envelope msg)) ts = Some m
                then receipt_flags (ReceiptMessage (Envelope msg)) mv else mv)"
    and rc: "\<forall>cv0. resolved_conversation w (Source (Envelope msg)) = Some cv0 \<longrightarrow>
        resolved_conversation w' (Source (Envelope msg)) = Some cv0"
    and st: "\<forall>ts. stored_message w' (Source (Envelope msg)) ts =
           stored_message w (Source (Envelope msg)) ts"
    by blast
  have skip: "onReceipt w (without_timestamp msg ts) = Inr (None, w')"
    using onReceipt_without_absent [OF assms] run by simp
  have still: "stored_message w' (Source (Envelope msg)) ts = None"
    using st assms(2) by simp
  have same: "msg_heap (mem w') = msg_heap (mem w)"
    if "\<forall>t \<in> set (Timestamps (ReceiptMessage (Envelope msg))).
          stored_message w (Source (Envelope msg)) t = None"
  proof (rule loads_equal_lists)
    show "length (msg_heap (mem w)) = length (msg_heap (mem w'))" using len by simp
    show "\<forall>p x. load (msg_heap (mem w)) p = Some x \<longrightarrow> load (msg_heap (mem w')) p = Some x"
      using msgs that by auto
  qed
  from run skip still rc convs same show ?thesis by blast
qed

theorem onReceipt_skips_absent_timestamp_witness:
  "wf_world world1 \<and> stored_message world1 ''+1555'' 999 = None \<and>
   (\<exists>w'. onReceipt world1 unknown_receipt = Inr (None, w') \<and>
      stored_message w' ''+1555'' 999 = None \<and>
      msg_heap (mem w') = [example_msg] \<and>
      load (conv_heap (mem w')) (Ptr 1) =
        Some \<lparr>Contact = Ptr 1, Messages = [100 \<mapsto> Ptr 0], MessageOrder = [100],
              HasNewMessage = True\<rparr>)"
proof -
  have c: "load (conv_heap (mem world1)) (Ptr 1) =
        Some \<lparr>Contact = Ptr 1, Messages = [100 \<mapsto> Ptr 0], MessageOrder = [100],
              HasNewMessage = True\<rparr>"
    by (simp add: world1_eval load_def)
  have a: "stored_message world1 (Source (Envelope unknown_receipt)) 999 = None"
    by (simp add: receipt_fields world1_stored_999)
  have m: "msg_heap (mem world1) = [example_msg]"
    by (simp add: world1_eval)
  from onReceipt_skips_absent_timestamp [OF wf_world1 a] c
  obtain w' where "onReceipt world1 unknown_receipt = Inr (None, w')"
    "stored_message w' (Source (Envelope unknown_receipt)) 999 = None"
    "load (conv_heap (mem w')) (Ptr 1) =
        Some \<lparr>Contact = Ptr 1, Messages = [100 \<mapsto> Ptr 0], MessageOrder = [100],
              HasNewMessage = True\<rparr>"
    "(\<forall>t \<in> set (Timestamps (ReceiptMessage (Envelope unknown_receipt))).
          stored_message world1 (Source (Envelope unknown_receipt)) t = None) \<longrightarrow>
        msg_heap (mem w') = msg_heap (mem world1)"
    by blast
  then show ?thesis
    using wf_world1 world1_stored_999 m by (auto simp: receipt_fields)
qed

text \<open>
  C9. In a well-formed state, a message that the sender's conversation stores under a
  timestamp of the receipt has, after \<open>onReceipt\<close>, exactly the receipt's two flags and
  is otherwise as before, whatever its flags were. In the example a delivered message
  receives a receipt with both flags false and is not delivered afterwards.
\<close>

theorem onReceipt_overwrites_flags:
  assumes "wf_world w" and "ts \<in> set (Timestamps (ReceiptMessage (Envelope msg)))"
    and "stored_message w (Source (Envelope msg)) ts = Some m"
    and "load (msg_heap (mem w)) m = Some mv"
  shows "\<exists>w'. onReceipt w msg = Inr (None, w') \<and>
     load (msg_heap (mem w')) m =
       Some (mv\<lparr>IsDelivered := IsDelivery (ReceiptMessage (Envelope msg)),
                IsRead := rmIsRead (ReceiptMessage (Envelope msg))\<rparr>)"
proof -
  from onReceipt_result [OF assms(1), of msg] obtain w' where
    run: "onReceipt w msg = Inr (None, w')"
    and msgs: "\<forall>m mv. load (msg_heap (mem w)) m = Some mv \<longrightarrow>
        load (msg_heap (mem w')) m =
          Some (if \<exists>ts \<in> set (Timestamps (ReceiptMessage (Envelope msg))).
                     stored_message w (Source (Envelope msg)) ts = Some m
                then receipt_flags (ReceiptMessage (Envelope msg)) mv else mv)"
    by blast
  from msgs assms(2-4) have "load (msg_heap (mem w')) m =
      Some (receipt_flags (ReceiptMessage (Envelope msg)) mv)"
    by auto
  with run show ?thesis by (auto simp: receipt_flags_def)
qed

theorem onReceipt_overwrites_flags_witness:
  "wf_world world1 \<and> stored_message world1 ''+1555'' 100 = Some (Ptr 0) \<and>
   load (msg_heap (mem world1)) (Ptr 0) = Some example_msg \<and> IsDelivered example_msg \<and>
   (\<exists>w'. onReceipt world1 negative_receipt = Inr (None, w') \<and>
      load (msg_heap (mem w')) (Ptr 0) =
        Some \<lparr>Content = ''hi'', From = ''+1555'', Timestamp = 100,
              IsDelivered = False, IsRead = False\<rparr>)"
proof -
  have t: "100 \<in> set (Timestamps (ReceiptMessage (Envelope negative_receipt)))"
    by (simp add: receipt_fields)
  have s: "stored_message world1 (Source (Envelope negative_receipt)) 100 = Some (Ptr 0)"
    by (simp add: receipt_fields world1_stored_100)
  from onReceipt_overwrites_flags [OF wf_world1 t s world1_msg]
  obtain w' where "onReceipt world1 negative_receipt = Inr (None, w')"
    "load (msg_heap (mem w')) (Ptr 0) =
       Some (example_msg\<lparr>IsDelivered := IsDelivery (ReceiptMessage (Envelope negative_receipt)),
                IsRead := rmIsRead (ReceiptMessage (Envelope negative_receipt))\<rparr>)"
    by blast
  then show ?thesis
    using wf_world1 world1_stored_100 world1_msg
    by (auto simp: receipt_fields example_msg_def)
qed

subsection \<open>Send\<close>

lemma Send_new_conversation:
  assumes "load (contact_heap (mem w)) contact = Some cc"
    and "conversations (siggo w) contact = None"
  shows "Send sig_send w msg contact =
     Inr (sig_send (Number cc) msg,
       w\<lparr>siggo := (siggo w)\<lparr>conversations :=
             (conversations (siggo w))(contact \<mapsto> Ptr (length (conv_heap (mem w))))\<rparr>,
         mem := (mem w)\<lparr>
             conv_heap := conv_heap (mem w) @ [empty_conversation contact],
             msg_heap := msg_heap (mem w) @ [pending_message w msg]\<rparr>,
         events := events w @ [SignalSend (Number cc) msg]\<rparr>)"
  using assms
  by (simp add: Send_def Let_def alloc_def newConversation_eval onSend_def
        pending_message_def empty_conversation_def)

lemma Send_known_conversation:
  assumes "load (contact_heap (mem w)) contact = Some cc"
    and "conversations (siggo w) contact = Some conv"
  shows "Send sig_send w msg contact =
     Inr (sig_send (Number cc) msg,
       w\<lparr>mem := (mem w)\<lparr>msg_heap := msg_heap (mem w) @ [pending_message w msg]\<rparr>,
         events := events w @ [SignalSend (Number cc) msg]\<rparr>)"
  using assms
  by (simp add: Send_def Let_def alloc_def onSend_def pending_message_def)

lemma Send_nil_contact: "Send sig_send w msg Nil = Inl NilDereference"
  by (simp add: Send_def Let_def alloc_def newConversation_eval onSend_def
        split: option.splits prod.splits)

lemma wf_Send:
  assumes wf: "wf_world w" and run: "Send sig_send w msg contact = Inr (e, w')"
  shows "wf_world w'"
proof -
  from run obtain cc where cc: "load (contact_heap (mem w)) contact = Some cc"
    by (cases "load (contact_heap (mem w)) contact")
       (auto simp: Send_def Let_def alloc_def newConversation_eval onSend_def
          split: option.splits prod.splits)
  show ?thesis
  proof (cases "conversations (siggo w) contact")
    case None
    have "wf_world
       (w\<lparr>siggo := (siggo w)\<lparr>conversations :=
             (conversations (siggo w))(contact \<mapsto> Ptr (length (conv_heap (mem w))))\<rparr>,
         mem := (mem w)\<lparr>
             conv_heap := conv_heap (mem w) @ [empty_conversation contact],
             msg_heap := msg_heap (mem w) @ [pending_message w msg]\<rparr>,
         events := events w @ [SignalSend (Number cc) msg]\<rparr>)"
      unfolding wf_world_def
    proof (intro conjI allI impI, goal_cases)
      case (1 n' c')
      with wf_contactD [OF wf, of n' c'] show ?case by auto
    next
      case (2 c' conv)
      with wf_conversation_keyD [OF wf, of c' conv] cc show ?case
        by (auto split: if_splits)
    next
      case (3 c' conv)
      show ?case
      proof (cases "c' = contact")
        case True
        with 3 show ?thesis
          by (auto simp: load_snoc empty_conversation_def)
      next
        case False
        with 3 have old: "conversations (siggo w) c' = Some conv" by simp
        from wf_conversationD [OF wf old] obtain cv where
          cv: "load (conv_heap (mem w)) conv = Some cv"
          and al: "\<forall>ts m. Messages cv ts = Some m \<longrightarrow> load (msg_heap (mem w)) m \<noteq> None"
          and inv: "set (MessageOrder cv) = dom (Messages cv)" "distinct (MessageOrder cv)"
          by blast
        from cv have "conv \<noteq> Ptr (length (conv_heap (mem w)))" by auto
        with cv al inv show ?thesis
          by (auto simp: load_snoc)
      qed
    qed
    with run show ?thesis
      unfolding Send_new_conversation [OF cc None] by auto
  next
    case (Some conv)
    have "wf_world
       (w\<lparr>mem := (mem w)\<lparr>msg_heap := msg_heap (mem w) @ [pending_message w msg]\<rparr>,
         events := events w @ [SignalSend (Number cc) msg]\<rparr>)"
      unfolding wf_world_def
    proof (intro conjI allI impI, goal_cases)
      case (1 n' c')
      with wf_contactD [OF wf, of n' c'] show ?case by auto
    next
      case (2 c' conv')
      with wf_conversation_keyD [OF wf, of c' conv'] show ?case by auto
    next
      case (3 c' conv')
      then have old: "conversations (siggo w) c' = Some conv'" by simp
      from wf_conversationD [OF wf old] show ?case
        by (auto simp: load_snoc)
    qed
    with run show ?thesis
      unfolding Send_known_conversation [OF cc Some] by auto
  qed
qed

lemma world0_me: "load (contact_heap (mem world0)) (Ptr 0) = Some \<lparr>Number = ''+1000'', Name = ''me''\<rparr>"
  by (simp add: world0_eval load_def)

lemma world0_me_conversation: "conversations (siggo world0) (Ptr 0) = Some (Ptr 0)"
  by (simp add: world0_eval)

text \<open>
  C8, as the code has it. For a contact of the store and a transport whose \<^verbatim>\<open>Send\<close>
  returns an error, \<open>Send\<close> returns that error. Afterwards the contact has a
  conversation in the registry: the one it had, or a new empty one. The pending message
  is allocated, but \<^verbatim>\<open>onSend\<close> is empty and no conversation records it: the
  conversation objects are those of before, with the new empty conversation added when
  the contact had none. The one event added to the run is the transport's \<^verbatim>\<open>Send\<close>.
\<close>

theorem Send_failure_keeps_conversations:
  assumes "load (contact_heap (mem w)) contact = Some cc"
    and "sig_send (Number cc) msg = Some e"
  shows "\<exists>w' conv.
     Send sig_send w msg contact = Inr (Some e, w') \<and>
     conversations (siggo w') contact = Some conv \<and>
     (case conversations (siggo w) contact of
        None \<Rightarrow> conv = Ptr (length (conv_heap (mem w))) \<and>
                conv_heap (mem w') = conv_heap (mem w) @ [empty_conversation contact]
      | Some conv0 \<Rightarrow> conv = conv0 \<and> conv_heap (mem w') = conv_heap (mem w)) \<and>
     msg_heap (mem w') = msg_heap (mem w) @ [pending_message w msg] \<and>
     contact_heap (mem w') = contact_heap (mem w) \<and>
     contacts (siggo w') = contacts (siggo w) \<and>
     events w' = events w @ [SignalSend (Number cc) msg]"
proof (cases "conversations (siggo w) contact")
  case None
  show ?thesis
    unfolding Send_new_conversation [OF assms(1) None] using None assms(2)
    by simp
next
  case (Some conv)
  show ?thesis
    unfolding Send_known_conversation [OF assms(1) Some] using Some assms(2)
    by simp
qed

theorem Send_failure_keeps_conversations_witness:
  "load (contact_heap (mem world0)) (Ptr 0) = Some \<lparr>Number = ''+1000'', Name = ''me''\<rparr> \<and>
   failing_send ''+1000'' ''hello'' = Some ''send failed'' \<and>
   (\<exists>w'. Send failing_send world0 ''hello'' (Ptr 0) = Inr (Some ''send failed'', w') \<and>
      conversations (siggo w') (Ptr 0) = Some (Ptr 0) \<and>
      conv_heap (mem w') = [empty_conversation (Ptr 0)] \<and>
      events w' = events world0 @ [SignalSend ''+1000'' ''hello''])"
proof -
  have f: "failing_send (Number \<lparr>Number = ''+1000'', Name = ''me''\<rparr>) ''hello'' = Some ''send failed''"
    by (simp add: failing_send_def)
  from Send_failure_keeps_conversations
    [of world0 "Ptr 0" "\<lparr>Number = ''+1000'', Name = ''me''\<rparr>" failing_send "''hello''" "''send failed''",
     OF world0_me f]
  obtain w' conv where "Send failing_send world0 ''hello'' (Ptr 0) = Inr (Some ''send failed'', w')"
    "conversations (siggo w') (Ptr 0) = Some conv"
    "case conversations (siggo world0) (Ptr 0) of
        None \<Rightarrow> conv = Ptr (length (conv_heap (mem world0))) \<and>
                conv_heap (mem w') = conv_heap (mem world0) @ [empty_conversation (Ptr 0)]
      | Some conv0 \<Rightarrow> conv = conv0 \<and> conv_heap (mem w') = conv_heap (mem world0)"
    "events w' = events world0 @ [SignalSend (Number \<lparr>Number = ''+1000'', Name = ''me''\<rparr>) ''hello'']"
    by blast
  then have "Send failing_send world0 ''hello'' (Ptr 0) = Inr (Some ''send failed'', w') \<and>
      conversations (siggo w') (Ptr 0) = Some (Ptr 0) \<and>
      conv_heap (mem w') = [empty_conversation (Ptr 0)] \<and>
      events w' = events world0 @ [SignalSend ''+1000'' ''hello'']"
    by (simp add: world0_me_conversation) (simp add: world0_eval)
  then show ?thesis
    using world0_me by (auto simp: failing_send_def)
qed

text \<open>
  C8, as the spec words it, fails: after a failed send of "hello" to the user's own
  contact in the initial state, the pending message exists in the store, but the
  contact's conversation stores no message and renders as the empty string.
\<close>

theorem Send_failure_pending_message_counterexample:
  "Send failing_send world0 ''hello'' (Ptr 0) = Inr (Some ''send failed'', failed_send_world) \<and>
   conversations (siggo failed_send_world) (Ptr 0) = Some (Ptr 0) \<and>
   load (conv_heap (mem failed_send_world)) (Ptr 0) =
     Some \<lparr>Contact = Ptr 0, Messages = Map.empty, MessageOrder = [], HasNewMessage = False\<rparr> \<and>
   msg_heap (mem failed_send_world) =
     [\<lparr>Content = ''hello'', From = ''me'', Timestamp = 0, IsDelivered = False, IsRead = False\<rparr>] \<and>
   Conversation_String (mem failed_send_world) (Ptr 0) = Inr []"
  unfolding failed_send_world_def Send_known_conversation [OF world0_me world0_me_conversation]
  by (simp add: failing_send_def world0_eval load_def pending_message_def example_config_def
        empty_conversation_def Conversation_String_def)

end
